theory Spec2Isabelle
  imports Complex_Main
begin

section \<open>Numbers\<close>

text \<open>
  The engine computes on JavaScript numbers, which are IEEE 754 binary64 doubles: every
  arithmetic operation returns its exact result rounded to the nearest double. The model
  keeps a number as the real it denotes and takes the operations of the source from a
  record, so that the one translation of the source is read in two arithmetics:
  \<open>binary64\<close>, where every operation rounds as the doubles do, and \<open>exact_arith\<close>, where
  none does. What the code computes is its reading in \<open>binary64\<close>; the reading in
  \<open>exact_arith\<close> is what its formulas mean before any rounding.

  \<open>fl64 x\<close> is the double nearest to \<open>x\<close>: the number with a 53-bit significand nearest to
  \<open>x\<close>, halves going to the even significand. The exponent is not bounded, so overflow
  and subnormal numbers are outside the model, and so are the values NaN and Infinity
  (a quotient by 0 in particular has no counterpart here).
\<close>

definition round_ties_even :: "real \<Rightarrow> int" where
  "round_ties_even y =
     (let f = \<lfloor>y\<rfloor>;
          d = y - real_of_int f
      in if d < 1 / 2 then f
         else if 1 / 2 < d then f + 1
         else if even f then f else f + 1)"

definition fl64 :: "real \<Rightarrow> real" where
  "fl64 x =
     (if x = 0 then 0
      else (let e = \<lfloor>log 2 \<bar>x\<bar>\<rfloor>;
                ulp = 2 powr (real_of_int e - 52)
            in real_of_int (round_ties_even (x / ulp)) * ulp))"

text \<open>
  The operations of the source: \<open>js_num\<close> reads a decimal literal, the next four are
  \<^verbatim>\<open>+\<close>, \<^verbatim>\<open>-\<close>, \<^verbatim>\<open>*\<close> and \<^verbatim>\<open>/\<close>, and \<open>js_pow\<close> is \<^verbatim>\<open>Math.pow\<close>, which the engine only calls
  with a base of at least 1 and which is taken to round correctly. Literals that are
  whole numbers or halves are doubles and are written as they are.
\<close>

record arithmetic =
  js_num :: "real \<Rightarrow> real"
  js_add :: "real \<Rightarrow> real \<Rightarrow> real"
  js_sub :: "real \<Rightarrow> real \<Rightarrow> real"
  js_mul :: "real \<Rightarrow> real \<Rightarrow> real"
  js_div :: "real \<Rightarrow> real \<Rightarrow> real"
  js_pow :: "real \<Rightarrow> real \<Rightarrow> real"

definition binary64 :: arithmetic where
  "binary64 =
     \<lparr>js_num = fl64,
      js_add = (\<lambda>x y. fl64 (x + y)),
      js_sub = (\<lambda>x y. fl64 (x - y)),
      js_mul = (\<lambda>x y. fl64 (x * y)),
      js_div = (\<lambda>x y. fl64 (x / y)),
      js_pow = (\<lambda>b e. fl64 (b powr e))\<rparr>"

definition exact_arith :: arithmetic where
  "exact_arith =
     \<lparr>js_num = (\<lambda>x. x),
      js_add = (\<lambda>x y. x + y),
      js_sub = (\<lambda>x y. x - y),
      js_mul = (\<lambda>x y. x * y),
      js_div = (\<lambda>x y. x / y),
      js_pow = (\<lambda>b e. b powr e)\<rparr>"


text \<open>
  \<^verbatim>\<open>Math.round(x)\<close> is the integer nearest to \<open>x\<close>, halves going up; it does not round
  its result a second time.
\<close>

definition Math_round :: "real \<Rightarrow> int" where
  "Math_round x = \<lfloor>x + 1 / 2\<rfloor>"

text \<open>\<^verbatim>\<open>export const round2 = (n) => Math.round(n * 100) / 100\<close>\<close>

definition round2 :: "arithmetic \<Rightarrow> real \<Rightarrow> real" where
  "round2 A n = js_div A (real_of_int (Math_round (js_mul A n 100))) 100"

section \<open>Amortization calculator (finance.ts)\<close>

text \<open>
  \<^verbatim>\<open>pmt(rateAnnual, years, principal)\<close>: the two locals are computed first, then the
  guards are tried in the order of the source. The parameter \<^verbatim>\<open>principal\<close> is written
  \<open>principal0\<close>, the plain name being the row field below.
\<close>

definition pmt :: "arithmetic \<Rightarrow> real \<Rightarrow> real \<Rightarrow> real \<Rightarrow> real" where
  "pmt A rateAnnual years principal0 =
     (let m = js_mul A years 12;
          r = js_div A rateAnnual 12
      in if principal0 \<le> 0 \<or> years \<le> 0 then 0
         else if rateAnnual \<le> 0 then js_div A principal0 m
         else js_div A (js_mul A principal0 (js_mul A r (js_pow A (js_add A 1 r) m)))
                (js_sub A (js_pow A (js_add A 1 r) m) 1))"

record AmortizationRow =
  month :: nat
  payment :: real
  interest :: real
  principal :: real
  balance :: real

text \<open>
  The body of the \<^verbatim>\<open>for (let i = 1; i <= m; i++)\<close> loop of \<^verbatim>\<open>buildAmort\<close>: the
  counter \<open>i\<close>, the running balance \<open>bal\<close> and the rows pushed so far are the loop
  state; \<open>m\<close>, \<open>pay\<close> and \<open>r\<close> are the constants computed before the loop.
\<close>

function buildAmort_loop ::
  "arithmetic \<Rightarrow> real \<Rightarrow> real \<Rightarrow> real \<Rightarrow> nat \<Rightarrow> real \<Rightarrow> AmortizationRow list
   \<Rightarrow> AmortizationRow list"
where
  "buildAmort_loop A m pay r i bal rows =
     (if real i \<le> m then
        (let interest' = js_mul A bal r;
             princ = min (js_sub A pay interest') bal;
             bal' = max 0 (js_sub A bal princ)
         in buildAmort_loop A m pay r (i + 1) bal'
              (rows @ [\<lparr>month = i, payment = round2 A pay, interest = round2 A interest',
                        principal = round2 A princ, balance = round2 A bal'\<rparr>]))
      else rows)"
  by pat_completeness auto
termination
  by (relation "measure (\<lambda>(A, m, pay, r, i, bal, rows). nat (\<lfloor>m\<rfloor> + 1 - int i))")
     (auto simp: le_floor_iff)

declare buildAmort_loop.simps [simp del]

definition buildAmort :: "arithmetic \<Rightarrow> real \<Rightarrow> real \<Rightarrow> real \<Rightarrow> AmortizationRow list" where
  "buildAmort A principal0 rateAnnual years =
     (let m = js_mul A years 12;
          pay = pmt A rateAnnual years principal0;
          r = js_div A rateAnnual 12
      in buildAmort_loop A m pay r 1 principal0 [])"

text \<open>
  \<^verbatim>\<open>FinancialInputs\<close> and \<^verbatim>\<open>Summary\<close>, field by field. The form layer clamps every
  numeric input to a non-negative number before the engine sees it.
\<close>

record FinancialInputs =
  purchasePrice :: real
  registrationRatePct :: real
  notaryFees :: real
  renovationBudget :: real
  contingencyPct :: real
  ownCash :: real
  cryptoNet :: real
  familyLoanAmount :: real
  familyLoanRatePct :: real
  familyLoanTermYears :: real
  bankLoanAmount :: real
  bankRatePct :: real
  bankTermYears :: real
  netIncomeMonthly :: real
  otherFixedCostsMonthly :: real
  airbnbIncome :: real
  useAirbnbIncome :: bool
  businessUsePct :: real
  projectName :: string
  reportNotes :: string

record Summary =
  regTax :: real
  renoWithCont :: real
  totalProject :: real
  totalSources :: real
  fundingGap :: real
  bankMonthly :: real
  familyMonthly :: real
  totalDebt :: real
  dtiPct :: real
  netAfter :: real

definition calculateSummary :: "arithmetic \<Rightarrow> FinancialInputs \<Rightarrow> Summary" where
  "calculateSummary A inputs =
     (let regTax' = js_mul A (purchasePrice inputs) (js_div A (registrationRatePct inputs) 100);
          renoWithCont' = js_mul A (renovationBudget inputs)
                            (js_add A 1 (js_div A (contingencyPct inputs) 100));
          totalProject' = js_add A (js_add A (js_add A (purchasePrice inputs) regTax')
                                      (notaryFees inputs)) renoWithCont';
          totalSources' = js_add A (js_add A (js_add A (ownCash inputs) (cryptoNet inputs))
                                      (familyLoanAmount inputs)) (bankLoanAmount inputs);
          fundingGap' = round2 A (js_sub A totalProject' totalSources');
          bankMonthly' = pmt A (js_div A (bankRatePct inputs) 100) (bankTermYears inputs)
                           (bankLoanAmount inputs);
          familyMonthly' = pmt A (js_div A (familyLoanRatePct inputs) 100)
                             (familyLoanTermYears inputs) (familyLoanAmount inputs);
          totalDebt' = js_add A bankMonthly' familyMonthly';
          airbnb = (if useAirbnbIncome inputs then airbnbIncome inputs else 0);
          netAfter' = js_sub A (js_add A (js_sub A (netIncomeMonthly inputs)
                                            (otherFixedCostsMonthly inputs)) airbnb) totalDebt';
          dtiPct' = (if netIncomeMonthly inputs > 0
                     then js_mul A (js_div A totalDebt' (netIncomeMonthly inputs)) 100 else 0)
      in \<lparr>regTax = round2 A regTax', renoWithCont = round2 A renoWithCont',
          totalProject = round2 A totalProject', totalSources = round2 A totalSources',
          fundingGap = fundingGap', bankMonthly = round2 A bankMonthly',
          familyMonthly = round2 A familyMonthly', totalDebt = round2 A totalDebt',
          dtiPct = round2 A dtiPct', netAfter = round2 A netAfter'\<rparr>)"

section \<open>Affordability banner (SummaryCards.tsx)\<close>

text \<open>
  The component derives seven booleans from the summary and picks the banner by the
  chain \<^verbatim>\<open>hasIssues ? ... : needsAttention ? ... : ...\<close>; the banner is represented here
  by its headline.
\<close>

definition isFundingGapBad :: "Summary \<Rightarrow> bool" where
  "isFundingGapBad summary = (fundingGap summary > 0)"

definition isDTIAmber :: "Summary \<Rightarrow> bool" where
  "isDTIAmber summary = (dtiPct summary > 45)"

definition isDTIRed :: "Summary \<Rightarrow> bool" where
  "isDTIRed summary = (dtiPct summary > 55)"

definition isNetAfterBad :: "Summary \<Rightarrow> bool" where
  "isNetAfterBad summary = (netAfter summary < 0)"

definition hasIssues :: "Summary \<Rightarrow> bool" where
  "hasIssues summary = (isFundingGapBad summary \<or> isDTIRed summary \<or> isNetAfterBad summary)"

definition needsAttention :: "Summary \<Rightarrow> bool" where
  "needsAttention summary = (\<not> hasIssues summary \<and> isDTIAmber summary)"

definition looksGood :: "Summary \<Rightarrow> bool" where
  "looksGood summary = (\<not> hasIssues summary \<and> \<not> needsAttention summary)"

definition bannerTitle :: "Summary \<Rightarrow> string" where
  "bannerTitle summary =
     (if hasIssues summary then ''Financieel niet haalbaar in huidige vorm''
      else if needsAttention summary then ''Haalbaar maar krap''
      else ''Financieel gezond en haalbaar'')"

section \<open>Scenario risk analyzer (advisor.ts)\<close>

datatype risk = Laag | Gemiddeld | Hoog

datatype riskColor = green | yellow | red

text \<open>
  The four \<^verbatim>\<open>riskLevel\<close> texts of \<^verbatim>\<open>assessOverallRisk\<close>, in the order of its returns. The
  first one prints \<^verbatim>\<open>Math.round(summary.fundingGap)\<close>, which the constructor carries.
\<close>

datatype riskLevel =
    HoogRisicoTekort int
  | HoogRisicoDTI
  | GemiddeldRisico
  | LaagRisico

record ScenarioAnalysis =
  sc_name :: string
  sc_rate :: real
  sc_incomeDelta :: real
  sc_bankMonthly :: real
  sc_familyMonthly :: real
  sc_totalDebt :: real
  sc_dtiPct :: real
  sc_monthlyNet :: real
  sc_risk :: risk

definition calculateScenario ::
  "arithmetic \<Rightarrow> string \<Rightarrow> real \<Rightarrow> real \<Rightarrow> real \<Rightarrow> FinancialInputs \<Rightarrow> real
   \<Rightarrow> ScenarioAnalysis"
where
  "calculateScenario A name bankRate incomeDelta netIncome inputs familyMonthly' =
     (let bankMonthly' = pmt A (js_div A bankRate 100) (bankTermYears inputs)
                           (bankLoanAmount inputs);
          totalDebt' = js_add A bankMonthly' familyMonthly';
          dtiPct' = (if netIncome > 0 then js_mul A (js_div A totalDebt' netIncome) 100
                     else 100);
          airbnb = (if useAirbnbIncome inputs then airbnbIncome inputs else 0);
          monthlyNet = js_sub A (js_add A (js_sub A netIncome (otherFixedCostsMonthly inputs))
                                   airbnb) totalDebt';
          risk' = (if dtiPct' \<le> 45 \<and> monthlyNet > 1000 then Laag
                   else if dtiPct' \<le> 55 \<and> monthlyNet > 0 then Gemiddeld
                   else Hoog)
      in \<lparr>sc_name = name, sc_rate = round2 A bankRate, sc_incomeDelta = incomeDelta,
          sc_bankMonthly = round2 A bankMonthly', sc_familyMonthly = round2 A familyMonthly',
          sc_totalDebt = round2 A totalDebt', sc_dtiPct = round2 A dtiPct',
          sc_monthlyNet = round2 A monthlyNet, sc_risk = risk'\<rparr>)"

definition generateScenarios ::
  "arithmetic \<Rightarrow> FinancialInputs \<Rightarrow> Summary \<Rightarrow> ScenarioAnalysis list"
where
  "generateScenarios A inputs summary =
     (let optimisticRate = max (1 / 2) (js_sub A (bankRatePct inputs) (1 / 2));
          optimisticIncome = js_mul A (netIncomeMonthly inputs) (js_num A (11 / 10));
          scenarios1 = [calculateScenario A ''Optimistisch'' optimisticRate 10 optimisticIncome
                          inputs (familyMonthly summary)];
          scenarios2 = scenarios1 @
                       [calculateScenario A ''Realistisch'' (bankRatePct inputs) 0
                          (netIncomeMonthly inputs) inputs (familyMonthly summary)];
          conservativeRate = js_add A (bankRatePct inputs) (1 / 2);
          conservativeIncome = js_mul A (netIncomeMonthly inputs) (js_num A (9 / 10))
      in scenarios2 @
         [calculateScenario A ''Conservatief'' conservativeRate (- 10) conservativeIncome
            inputs (familyMonthly summary)])"

text \<open>
  \<^verbatim>\<open>scenarios[1]\<close> is \<^verbatim>\<open>undefined\<close> on an array shorter than two, and reading
  \<^verbatim>\<open>.risk\<close> of it throws a TypeError; the read happens only after the funding-gap test.
\<close>

datatype js_error = TypeError

definition assessOverallRisk ::
  "Summary \<Rightarrow> ScenarioAnalysis list \<Rightarrow> js_error + (riskLevel \<times> riskColor)"
where
  "assessOverallRisk summary scenarios =
     (let realisticScenario = (if 1 < length scenarios then Some (scenarios ! 1) else None)
      in if fundingGap summary > 0
         then Inr (HoogRisicoTekort (Math_round (fundingGap summary)), red)
         else (case realisticScenario of
                 None \<Rightarrow> Inl TypeError
               | Some realistic \<Rightarrow>
                   if sc_risk realistic = Hoog then Inr (HoogRisicoDTI, red)
                   else if sc_risk realistic = Gemiddeld then Inr (GemiddeldRisico, yellow)
                   else Inr (LaagRisico, green)))"

text \<open>
  The result of \<^verbatim>\<open>analyzeFinancials\<close> without its three generated texts
  (\<^verbatim>\<open>summaryText\<close>, \<^verbatim>\<open>recommendations\<close>, \<^verbatim>\<open>fullText\<close>), which no risk field reads.
\<close>

record AIAnalysis =
  ai_riskLevel :: riskLevel
  ai_riskColor :: riskColor
  ai_scenarios :: "ScenarioAnalysis list"

definition analyzeFinancials ::
  "arithmetic \<Rightarrow> FinancialInputs \<Rightarrow> Summary \<Rightarrow> js_error + AIAnalysis"
where
  "analyzeFinancials A inputs summary =
     (let scenarios = generateScenarios A inputs summary
      in case assessOverallRisk summary scenarios of
           Inl e \<Rightarrow> Inl e
         | Inr (level, color) \<Rightarrow>
             Inr \<lparr>ai_riskLevel = level, ai_riskColor = color, ai_scenarios = scenarios\<rparr>)"

section \<open>Sensitivity grid (sensitivity.ts)\<close>

record SensitivityCell =
  amount :: real
  rate :: real
  monthly :: real
  isComfortable :: bool

record SensitivityConfig =
  minAmount :: real
  maxAmount :: real
  stepAmount :: real
  minRate :: real
  maxRate :: real
  stepRate :: real

text \<open>
  The two nested \<^verbatim>\<open>for\<close> loops of \<^verbatim>\<open>generateSensitivityGrid\<close>. Their counters are
  doubles advanced by \<^verbatim>\<open>+=\<close>, and nothing bounds the number of iterations, so each loop
  is a partial function: \<open>None\<close> is a loop that never ends. \<open>rate_loop\<close> is the inner loop,
  which fills one row; \<open>amount_loop\<close> is the outer one.
\<close>

partial_function (option) rate_loop ::
  "arithmetic \<Rightarrow> SensitivityConfig \<Rightarrow> real \<Rightarrow> real \<Rightarrow> real \<Rightarrow> real \<Rightarrow>
   real \<Rightarrow> SensitivityCell list \<Rightarrow> SensitivityCell list option"
where
  "rate_loop A config bankTermYears' familyMonthly' netIncomeMonthly' amount' rate' row =
     (if rate' \<le> maxRate config then
        (let monthly' = pmt A (js_div A rate' 100) bankTermYears' amount';
             totalDebt' = js_add A monthly' familyMonthly';
             dti = (if netIncomeMonthly' > 0
                    then js_mul A (js_div A totalDebt' netIncomeMonthly') 100
                    else 100)
         in rate_loop A config bankTermYears' familyMonthly' netIncomeMonthly' amount'
              (js_add A rate' (stepRate config))
              (row @ [\<lparr>amount = amount', rate = round2 A rate', monthly = round2 A monthly',
                        isComfortable = (dti \<le> 45)\<rparr>]))
      else Some row)"

partial_function (option) amount_loop ::
  "arithmetic \<Rightarrow> SensitivityConfig \<Rightarrow> real \<Rightarrow> real \<Rightarrow> real \<Rightarrow>
   real \<Rightarrow> SensitivityCell list list \<Rightarrow> SensitivityCell list list option"
where
  "amount_loop A config bankTermYears' familyMonthly' netIncomeMonthly' amount' grid =
     (if amount' \<le> maxAmount config then
        (case rate_loop A config bankTermYears' familyMonthly' netIncomeMonthly' amount'
                (minRate config) [] of
           None \<Rightarrow> None
         | Some row \<Rightarrow>
             amount_loop A config bankTermYears' familyMonthly' netIncomeMonthly'
               (js_add A amount' (stepAmount config)) (grid @ [row]))
      else Some grid)"

text \<open>The fifth parameter of the source, \<^verbatim>\<open>otherFixedCostsMonthly\<close>, is never read.\<close>

definition generateSensitivityGrid ::
  "arithmetic \<Rightarrow> SensitivityConfig \<Rightarrow> real \<Rightarrow> real \<Rightarrow> real \<Rightarrow> real \<Rightarrow>
   SensitivityCell list list option"
where
  "generateSensitivityGrid A config bankTermYears' familyMonthly' netIncomeMonthly'
     otherFixedCostsMonthly' =
     amount_loop A config bankTermYears' familyMonthly' netIncomeMonthly'
       (minAmount config) []"

definition getRates :: "SensitivityCell list list \<Rightarrow> real list" where
  "getRates grid = (if length grid = 0 then [] else map rate (grid ! 0))"

section \<open>Closed form of the grid\<close>

text \<open>
  For the proofs: \<open>grid_cell\<close> is the cell the inner loop pushes for an amount and a rate,
  and \<open>steps A s k x\<close> is the counter that started at \<open>x\<close> after \<open>k\<close> additions of \<open>s\<close>.
\<close>

definition grid_cell ::
  "arithmetic \<Rightarrow> real \<Rightarrow> real \<Rightarrow> real \<Rightarrow> real \<Rightarrow> real \<Rightarrow> SensitivityCell"
where
  "grid_cell A bankTermYears' familyMonthly' netIncomeMonthly' amount' rate' =
     \<lparr>amount = amount', rate = round2 A rate',
      monthly = round2 A (pmt A (js_div A rate' 100) bankTermYears' amount'),
      isComfortable =
        ((if netIncomeMonthly' > 0
          then js_mul A (js_div A (js_add A (pmt A (js_div A rate' 100) bankTermYears' amount')
                                     familyMonthly') netIncomeMonthly') 100
          else 100) \<le> 45)\<rparr>"

definition steps :: "arithmetic \<Rightarrow> real \<Rightarrow> nat \<Rightarrow> real \<Rightarrow> real" where
  "steps A s k x = ((\<lambda>v. js_add A v s) ^^ k) x"

text \<open>\<open>nsteps lo hi s\<close> is the number of values \<open>lo, lo + s, lo + 2 * s, ...\<close> up to \<open>hi\<close>.\<close>

definition nsteps :: "real \<Rightarrow> real \<Rightarrow> real \<Rightarrow> nat" where
  "nsteps lo hi s = nat (\<lfloor>(hi - lo) / s\<rfloor> + 1)"

section \<open>Closed form of the schedule\<close>

text \<open>
  For the proofs. \<open>amort_step A pay r bal\<close> is the balance after one turn of the loop of
  \<open>buildAmort\<close> entered with the balance \<open>bal\<close>, and \<open>amort_row A pay r i bal\<close> is the row
  pushed in that turn. In exact arithmetic, with \<open>U = (1 + r) powr m\<close>, the balance left
  after \<open>k\<close> payments of \<open>P * (r * U) / (U - 1)\<close> on a loan \<open>P\<close> is \<open>amort_bal P r U k\<close>, and
  \<open>exact_row P r U i\<close> is the row of month \<open>i\<close>.
\<close>

definition amort_step :: "arithmetic \<Rightarrow> real \<Rightarrow> real \<Rightarrow> real \<Rightarrow> real" where
  "amort_step A pay r bal =
     max 0 (js_sub A bal (min (js_sub A pay (js_mul A bal r)) bal))"

definition amort_row :: "arithmetic \<Rightarrow> real \<Rightarrow> real \<Rightarrow> nat \<Rightarrow> real \<Rightarrow> AmortizationRow" where
  "amort_row A pay r i bal =
     \<lparr>month = i, payment = round2 A pay, interest = round2 A (js_mul A bal r),
      principal = round2 A (min (js_sub A pay (js_mul A bal r)) bal),
      balance = round2 A (amort_step A pay r bal)\<rparr>"

definition amort_bal :: "real \<Rightarrow> real \<Rightarrow> real \<Rightarrow> nat \<Rightarrow> real" where
  "amort_bal P r U k = P * (U - (1 + r) ^ k) / (U - 1)"

definition exact_row :: "real \<Rightarrow> real \<Rightarrow> real \<Rightarrow> nat \<Rightarrow> AmortizationRow" where
  "exact_row P r U i =
     \<lparr>month = i,
      payment = round2 exact_arith (P * (r * U) / (U - 1)),
      interest = round2 exact_arith (amort_bal P r U (i - 1) * r),
      principal = round2 exact_arith (P * (r * U) / (U - 1) - amort_bal P r U (i - 1) * r),
      balance = round2 exact_arith (amort_bal P r U i)\<rparr>"

section \<open>Rounding to a double\<close>

lemma round_ties_even_of_int: "round_ties_even (real_of_int k) = k"
  by (simp add: round_ties_even_def)

lemma round_ties_even_bounds:
  "\<lfloor>y\<rfloor> \<le> round_ties_even y" "round_ties_even y \<le> \<lfloor>y\<rfloor> + 1"
  by (simp_all add: round_ties_even_def Let_def)

lemma round_ties_even_mono:
  assumes "y1 \<le> y2"
  shows "round_ties_even y1 \<le> round_ties_even y2"
proof (cases "\<lfloor>y1\<rfloor> = \<lfloor>y2\<rfloor>")
  case False
  have "\<lfloor>y1\<rfloor> \<le> \<lfloor>y2\<rfloor>" using assms by (rule floor_mono)
  then have "\<lfloor>y1\<rfloor> + 1 \<le> \<lfloor>y2\<rfloor>" using False by simp
  then show ?thesis
    using round_ties_even_bounds(2)[of y1] round_ties_even_bounds(1)[of y2] by linarith
next
  case True
  then have "y1 - real_of_int \<lfloor>y1\<rfloor> \<le> y2 - real_of_int \<lfloor>y2\<rfloor>" using assms by simp
  then show ?thesis using True unfolding round_ties_even_def Let_def by auto
qed

lemma round_ties_even_minus: "round_ties_even (- y) = - round_ties_even y"
proof (cases "y = real_of_int \<lfloor>y\<rfloor>")
  case True
  then obtain k where "y = real_of_int k" by blast
  then show ?thesis using round_ties_even_of_int[of "- k"] round_ties_even_of_int[of k] by simp
next
  case False
  then have fl: "\<lfloor>- y\<rfloor> = - \<lfloor>y\<rfloor> - 1" by linarith
  have d: "- y - real_of_int (- \<lfloor>y\<rfloor> - 1) = 1 - (y - real_of_int \<lfloor>y\<rfloor>)" by simp
  show ?thesis
    unfolding round_ties_even_def Let_def fl d by auto
qed


lemma fl64_0: "fl64 0 = 0"
  by (simp add: fl64_def)

lemma fl64_minus: "fl64 (- x) = - fl64 x"
  by (simp add: fl64_def Let_def round_ties_even_minus)

lemma fl64_eval:
  assumes "2 powr real_of_int e \<le> \<bar>x\<bar>" "\<bar>x\<bar> < 2 powr (real_of_int e + 1)"
  shows "fl64 x = real_of_int (round_ties_even (x / 2 powr (real_of_int e - 52)))
                  * 2 powr (real_of_int e - 52)"
proof -
  have "0 < (2::real) powr real_of_int e" by simp
  then have pos: "0 < \<bar>x\<bar>" using assms(1) by linarith
  then have nz: "x \<noteq> 0" by simp
  have "\<lfloor>log 2 \<bar>x\<bar>\<rfloor> = e"
    using floor_log_eq_powr_iff[of "\<bar>x\<bar>" 2 e] pos assms by simp
  then show ?thesis using nz by (simp add: fl64_def Let_def)
qed

lemma binade_ex:
  assumes "0 < x"
  shows "2 powr real_of_int \<lfloor>log 2 x\<rfloor> \<le> x \<and> x < 2 powr (real_of_int \<lfloor>log 2 x\<rfloor> + 1)"
  using floor_log_eq_powr_iff[of x 2 "\<lfloor>log 2 x\<rfloor>"] assms by simp

text \<open>A positive number and its rounding lie in the same closed binade.\<close>

lemma fl64_binade:
  assumes "2 powr real_of_int e \<le> x" "x < 2 powr (real_of_int e + 1)"
  shows "2 powr real_of_int e \<le> fl64 x" "fl64 x \<le> 2 powr (real_of_int e + 1)"
proof -
  define q where "q = 2 powr (real_of_int e - 52)"
  have q: "0 < q" by (simp add: q_def)
  have xpos: "0 < x" using assms(1) by (smt (verit) powr_gt_zero)
  have f: "fl64 x = real_of_int (round_ties_even (x / q)) * q"
    unfolding q_def using fl64_eval[of e x] assms xpos by simp
  have lo: "2 powr real_of_int e = real_of_int (2 ^ 52) * q"
    unfolding q_def by (simp add: powr_diff)
  have hi: "2 powr (real_of_int e + 1) = real_of_int (2 ^ 53) * q"
    unfolding q_def by (simp add: powr_diff powr_add)
  have "real_of_int (2 ^ 52) \<le> x / q" using assms(1) q unfolding lo by (simp add: field_simps)
  then have "round_ties_even (real_of_int (2 ^ 52)) \<le> round_ties_even (x / q)"
    by (rule round_ties_even_mono)
  then have a: "(2 ^ 52 :: int) \<le> round_ties_even (x / q)"
    unfolding round_ties_even_of_int .
  have "x / q \<le> real_of_int (2 ^ 53)" using assms(2) q unfolding hi by (simp add: field_simps)
  then have "round_ties_even (x / q) \<le> round_ties_even (real_of_int (2 ^ 53))"
    by (rule round_ties_even_mono)
  then have b: "round_ties_even (x / q) \<le> (2 ^ 53 :: int)"
    unfolding round_ties_even_of_int .
  have "real_of_int (2 ^ 52) * q \<le> real_of_int (round_ties_even (x / q)) * q"
    using a q by (intro mult_right_mono) simp_all
  then show "2 powr real_of_int e \<le> fl64 x" unfolding f lo .
  have "real_of_int (round_ties_even (x / q)) * q \<le> real_of_int (2 ^ 53) * q"
    using b q by (intro mult_right_mono) simp_all
  then show "fl64 x \<le> 2 powr (real_of_int e + 1)" unfolding f hi .
qed

lemma fl64_pos: "0 < x \<Longrightarrow> 0 < fl64 x"
proof -
  assume x: "0 < x"
  have "0 < 2 powr real_of_int \<lfloor>log 2 x\<rfloor>" by simp
  also have "\<dots> \<le> fl64 x" using binade_ex[OF x] by (intro fl64_binade(1)) simp_all
  finally show ?thesis .
qed

lemma fl64_mono_pos:
  assumes "0 < x1" "x1 \<le> x2"
  shows "fl64 x1 \<le> fl64 x2"
proof -
  define e1 where "e1 = \<lfloor>log 2 x1\<rfloor>"
  define e2 where "e2 = \<lfloor>log 2 x2\<rfloor>"
  have x2: "0 < x2" using assms by simp
  have b1: "2 powr real_of_int e1 \<le> x1" "x1 < 2 powr (real_of_int e1 + 1)"
    unfolding e1_def using binade_ex[OF assms(1)] by simp_all
  have b2: "2 powr real_of_int e2 \<le> x2" "x2 < 2 powr (real_of_int e2 + 1)"
    unfolding e2_def using binade_ex[OF x2] by simp_all
  have "log 2 x1 \<le> log 2 x2" using assms by simp
  then have le: "e1 \<le> e2" unfolding e1_def e2_def by (rule floor_mono)
  show ?thesis
  proof (cases "e1 = e2")
    case True
    define q where "q = 2 powr (real_of_int e1 - 52)"
    have q: "0 < q" by (simp add: q_def)
    have f1: "fl64 x1 = real_of_int (round_ties_even (x1 / q)) * q"
      unfolding q_def using fl64_eval[of e1 x1] b1 assms(1) by simp
    have f2: "fl64 x2 = real_of_int (round_ties_even (x2 / q)) * q"
      unfolding q_def using fl64_eval[of e1 x2] b2 x2 True by simp
    have "x1 / q \<le> x2 / q" using assms(2) q by (simp add: divide_right_mono)
    then have "round_ties_even (x1 / q) \<le> round_ties_even (x2 / q)"
      by (rule round_ties_even_mono)
    then show ?thesis unfolding f1 f2 using q by (intro mult_right_mono) simp_all
  next
    case False
    then have "e1 + 1 \<le> e2" using le by simp
    then have "real_of_int e1 + 1 \<le> real_of_int e2" by linarith
    then have "(2::real) powr (real_of_int e1 + 1) \<le> 2 powr real_of_int e2"
      by (intro powr_mono) simp_all
    moreover have "fl64 x1 \<le> 2 powr (real_of_int e1 + 1)" by (rule fl64_binade(2)[OF b1])
    moreover have "2 powr real_of_int e2 \<le> fl64 x2" by (rule fl64_binade(1)[OF b2])
    ultimately show ?thesis by linarith
  qed
qed

lemma fl64_mono:
  assumes "x1 \<le> x2"
  shows "fl64 x1 \<le> fl64 x2"
proof -
  consider "0 < x1" | "x1 \<le> 0" "0 \<le> x2" | "x2 < 0" using assms by linarith
  then show ?thesis
  proof cases
    case 1
    then show ?thesis using assms by (rule fl64_mono_pos)
  next
    case 2
    have "fl64 x1 \<le> 0"
    proof (cases "x1 = 0")
      case True then show ?thesis by (simp add: fl64_0)
    next
      case False
      then have "0 < - x1" using 2 by simp
      then have "0 < fl64 (- x1)" by (rule fl64_pos)
      then show ?thesis by (simp add: fl64_minus)
    qed
    moreover have "0 \<le> fl64 x2"
    proof (cases "x2 = 0")
      case True then show ?thesis by (simp add: fl64_0)
    next
      case False
      then have "0 < x2" using 2 by simp
      then show ?thesis using fl64_pos by (simp add: less_imp_le)
    qed
    ultimately show ?thesis by simp
  next
    case 3
    then have "0 < - x2" "- x2 \<le> - x1" using assms by simp_all
    then have "fl64 (- x2) \<le> fl64 (- x1)" by (rule fl64_mono_pos)
    then show ?thesis by (simp add: fl64_minus)
  qed
qed

text \<open>Numbers with a significand of at most 53 bits are doubles.\<close>

lemma fl64_representable:
  assumes "\<bar>k\<bar> < 2 ^ 53"
  shows "fl64 (real_of_int k * 2 powr real_of_int j) = real_of_int k * 2 powr real_of_int j"
proof (cases "k = 0")
  case True
  then show ?thesis by (simp add: fl64_0)
next
  case False
  define x where "x = real_of_int k * 2 powr real_of_int j"
  define e where "e = \<lfloor>log 2 \<bar>x\<bar>\<rfloor>"
  have ax: "\<bar>x\<bar> = real_of_int \<bar>k\<bar> * 2 powr real_of_int j"
    unfolding x_def by (simp add: abs_mult)
  have xpos: "0 < \<bar>x\<bar>" unfolding ax using False by simp
  have b: "2 powr real_of_int e \<le> \<bar>x\<bar>" "\<bar>x\<bar> < 2 powr (real_of_int e + 1)"
    unfolding e_def using binade_ex[OF xpos] by simp_all
  have "\<bar>x\<bar> < real_of_int (2 ^ 53) * 2 powr real_of_int j"
    unfolding ax using assms by (intro mult_strict_right_mono) (simp_all del: of_int_power of_int_numeral)
  also have "\<dots> = 2 powr (53 + real_of_int j)" by (simp add: powr_add)
  finally have "2 powr real_of_int e < 2 powr (53 + real_of_int j)" using b(1) by linarith
  then have "real_of_int e < 53 + real_of_int j" by simp
  then have ej: "0 \<le> j + 52 - e" by linarith
  define n where "n = nat (j + 52 - e)"
  have pw: "2 powr real_of_int j / 2 powr (real_of_int e - 52) = real_of_int (2 ^ n)"
  proof -
    have "2 powr real_of_int j / 2 powr (real_of_int e - 52) = 2 powr (real_of_int j - (real_of_int e - 52))"
      by (simp add: powr_diff)
    also have "real_of_int j - (real_of_int e - 52) = real n" unfolding n_def using ej by simp
    also have "2 powr real n = real_of_int (2 ^ n)" by (simp add: powr_realpow)
    finally show ?thesis .
  qed
  have "x / 2 powr (real_of_int e - 52) = real_of_int k * (2 powr real_of_int j / 2 powr (real_of_int e - 52))"
    unfolding x_def by simp
  also have "\<dots> = real_of_int (k * 2 ^ n)" unfolding pw by simp
  finally have q: "x / 2 powr (real_of_int e - 52) = real_of_int (k * 2 ^ n)" .
  have "fl64 x = real_of_int (round_ties_even (x / 2 powr (real_of_int e - 52))) * 2 powr (real_of_int e - 52)"
    by (rule fl64_eval[OF b])
  also have "\<dots> = (x / 2 powr (real_of_int e - 52)) * 2 powr (real_of_int e - 52)"
    unfolding q round_ties_even_of_int ..
  also have "\<dots> = x" by simp
  finally show ?thesis unfolding x_def .
qed

lemma fl64_of_int:
  assumes "\<bar>k\<bar> < 2 ^ 53"
  shows "fl64 (real_of_int k) = real_of_int k"
  using fl64_representable[OF assms, of 0] by simp


lemma fl64_numeral:
  "(numeral n :: int) < 2 ^ 53 \<Longrightarrow> fl64 (numeral n) = numeral n"
  using fl64_of_int[of "numeral n"] by simp

lemma fl64_one: "fl64 1 = 1"
  using fl64_of_int[of 1] by simp



lemma arith_binary64:
  "js_num binary64 x = fl64 x"
  "js_add binary64 x y = fl64 (x + y)"
  "js_sub binary64 x y = fl64 (x - y)"
  "js_mul binary64 x y = fl64 (x * y)"
  "js_div binary64 x y = fl64 (x / y)"
  "js_pow binary64 x y = fl64 (x powr y)"
  by (simp_all add: binary64_def)

lemma arith_exact:
  "js_num exact_arith x = x"
  "js_add exact_arith x y = x + y"
  "js_sub exact_arith x y = x - y"
  "js_mul exact_arith x y = x * y"
  "js_div exact_arith x y = x / y"
  "js_pow exact_arith x y = x powr y"
  by (simp_all add: exact_arith_def)



section \<open>The amortization loop\<close>

lemma real_le_iff_le_nat_floor:
  "0 < i \<Longrightarrow> real i \<le> m \<longleftrightarrow> i \<le> nat \<lfloor>m\<rfloor>"
proof -
  assume ipos: "0 < i"
  have "real i \<le> m \<longleftrightarrow> int i \<le> \<lfloor>m\<rfloor>" by (simp add: le_floor_iff)
  also have "\<dots> \<longleftrightarrow> i \<le> nat \<lfloor>m\<rfloor>" using ipos by linarith
  finally show ?thesis .
qed

lemma buildAmort_loop_unfold:
  "buildAmort_loop A m pay r i bal rows =
     (if real i \<le> m
      then buildAmort_loop A m pay r (i + 1) (amort_step A pay r bal)
             (rows @ [amort_row A pay r i bal])
      else rows)"
  by (subst buildAmort_loop.simps) (simp add: Let_def amort_step_def amort_row_def)

text \<open>
  In any arithmetic the loop is entered \<open>\<lfloor>m\<rfloor>\<close> times, and the row of month \<open>j\<close> is the one
  pushed from the balance that \<open>j - 1\<close> turns leave.
\<close>

lemma buildAmort_loop_rows:
  "0 < i \<Longrightarrow>
   buildAmort_loop A m pay r i bal rows
   = rows @ map (\<lambda>j. amort_row A pay r j ((amort_step A pay r ^^ (j - i)) bal))
              [i..<Suc (nat \<lfloor>m\<rfloor>)]"
proof (induction n \<equiv> "Suc (nat \<lfloor>m\<rfloor>) - i" arbitrary: i bal rows)
  case 0
  then have "\<not> i \<le> nat \<lfloor>m\<rfloor>" by simp
  then have "\<not> real i \<le> m" using real_le_iff_le_nat_floor[OF "0.prems"] by simp
  then show ?case using 0 by (subst buildAmort_loop_unfold) simp
next
  case (Suc n)
  then have ile: "i \<le> nat \<lfloor>m\<rfloor>" by simp
  then have True: "real i \<le> m" using real_le_iff_le_nat_floor[OF Suc.prems] by simp
  have n: "n = Suc (nat \<lfloor>m\<rfloor>) - (i + 1)" using Suc.hyps(2) by simp
  have IH: "buildAmort_loop A m pay r (i + 1) (amort_step A pay r bal)
              (rows @ [amort_row A pay r i bal])
        = (rows @ [amort_row A pay r i bal])
          @ map (\<lambda>j. amort_row A pay r j
                   ((amort_step A pay r ^^ (j - (i + 1))) (amort_step A pay r bal)))
              [i + 1..<Suc (nat \<lfloor>m\<rfloor>)]"
    by (rule Suc.hyps(1)[OF n]) simp
  have shift: "map (\<lambda>j. amort_row A pay r j
                   ((amort_step A pay r ^^ (j - (i + 1))) (amort_step A pay r bal)))
              [i + 1..<Suc (nat \<lfloor>m\<rfloor>)]
        = map (\<lambda>j. amort_row A pay r j ((amort_step A pay r ^^ (j - i)) bal))
              [i + 1..<Suc (nat \<lfloor>m\<rfloor>)]"
  proof (rule map_cong[OF refl])
    fix j assume "j \<in> set [i + 1..<Suc (nat \<lfloor>m\<rfloor>)]"
    then have "j - i = Suc (j - (i + 1))" by auto
    then show "amort_row A pay r j
                   ((amort_step A pay r ^^ (j - (i + 1))) (amort_step A pay r bal))
        = amort_row A pay r j ((amort_step A pay r ^^ (j - i)) bal)"
      by (simp only: funpow_Suc_right o_apply)
  qed
  have "buildAmort_loop A m pay r i bal rows
        = buildAmort_loop A m pay r (i + 1) (amort_step A pay r bal)
            (rows @ [amort_row A pay r i bal])"
    using True by (subst buildAmort_loop_unfold) simp
  also note IH
  also have "(rows @ [amort_row A pay r i bal])
          @ map (\<lambda>j. amort_row A pay r j
                   ((amort_step A pay r ^^ (j - (i + 1))) (amort_step A pay r bal)))
              [i + 1..<Suc (nat \<lfloor>m\<rfloor>)]
        = rows @ map (\<lambda>j. amort_row A pay r j ((amort_step A pay r ^^ (j - i)) bal))
              [i..<Suc (nat \<lfloor>m\<rfloor>)]"
    unfolding shift using ile by (simp add: upt_conv_Cons del: upt_Suc)
  finally show ?case .
qed

lemma buildAmort_rows:
  "buildAmort A P a y
   = map (\<lambda>j. amort_row A (pmt A a y P) (js_div A a 12) j
                 ((amort_step A (pmt A a y P) (js_div A a 12) ^^ (j - 1)) P))
       [1..<Suc (nat \<lfloor>js_mul A y 12\<rfloor>)]"
  unfolding buildAmort_def Let_def
  using buildAmort_loop_rows[of 1 A "js_mul A y 12" "pmt A a y P" "js_div A a 12" P "[]"]
  by (simp del: upt_Suc)

lemma buildAmort_length: "length (buildAmort A P a y) = nat \<lfloor>js_mul A y 12\<rfloor>"
  by (simp add: buildAmort_rows del: upt_Suc)

text \<open>A balance that one turn of the loop leaves as it is stays for ever.\<close>

lemma funpow_fixed: "f x = x \<Longrightarrow> (f ^^ k) x = x"
  by (induction k) simp_all

lemma buildAmort_rows_fixed:
  assumes "amort_step A (pmt A a y P) (js_div A a 12) P = P"
  shows "buildAmort A P a y
         = map (\<lambda>j. amort_row A (pmt A a y P) (js_div A a 12) j P)
             [1..<Suc (nat \<lfloor>js_mul A y 12\<rfloor>)]"
  unfolding buildAmort_rows
  by (simp only: funpow_fixed[where f = "amort_step A (pmt A a y P) (js_div A a 12)", OF assms])

section \<open>Rounding to cents\<close>

text \<open>
  \<open>round2\<close> on doubles rounds the product \<open>n * 100\<close> before \<^verbatim>\<open>Math.round\<close> sees it: the double
  1.115 lies below 1.115, its product by 100 is rounded to 111.5, and \<open>round2\<close> returns 1.12
  where exact arithmetic gives 1.11.
\<close>

lemma fl64_1115: "fl64 (1115 / 1000) = 5021513584518103 / 4503599627370496"
  using fl64_eval[of 0 "1115 / 1000"]
  by (simp add: powr_neg_numeral round_ties_even_def Let_def)

lemma fl64_1115_cents: "fl64 (5021513584518103 / 4503599627370496 * 100) = 223 / 2"
  using fl64_eval[of 6 "5021513584518103 / 4503599627370496 * 100"]
  by (simp add: powr_neg_numeral round_ties_even_def Let_def)

lemma round2_binary64_1115:
  "round2 binary64 (fl64 (1115 / 1000)) = fl64 (112 / 100)"
  "round2 exact_arith (fl64 (1115 / 1000)) = 111 / 100"
proof -
  show "round2 binary64 (fl64 (1115 / 1000)) = fl64 (112 / 100)"
    unfolding round2_def arith_binary64 fl64_1115 fl64_1115_cents
    by (simp add: Math_round_def)
  show "round2 exact_arith (fl64 (1115 / 1000)) = 111 / 100"
    unfolding round2_def arith_exact fl64_1115
    by (simp add: Math_round_def)
qed

section \<open>A schedule that never pays off\<close>

lemma round2_binary64_int:
  assumes "\<bar>k\<bar> < 2 ^ 46"
  shows "round2 binary64 (real_of_int k) = real_of_int k"
proof -
  have "\<bar>k * 100\<bar> < 2 ^ 46 * 2 ^ 7"
    unfolding abs_mult using assms by (intro mult_strict_mono) simp_all
  then have b: "\<bar>k * 100\<bar> < 2 ^ 53" by simp
  have m: "fl64 (real_of_int k * 100) = real_of_int (k * 100)"
    using fl64_of_int[OF b] by simp
  have "Math_round (real_of_int (k * 100)) = k * 100"
    unfolding Math_round_def by linarith
  moreover have "\<bar>k\<bar> < 2 ^ 53" using assms by simp
  ultimately show ?thesis
    unfolding round2_def arith_binary64 m by (simp add: fl64_of_int)
qed

lemma round2_binary64_numeral:
  "(numeral n :: int) < 2 ^ 46 \<Longrightarrow> round2 binary64 (numeral n) = numeral n"
  using round2_binary64_int[of "numeral n"] by simp

lemma round2_binary64_zero: "round2 binary64 0 = 0"
  using round2_binary64_int[of 0] by simp

lemma fl64_pow_2_60: "fl64 (2 powr 60) = 2 ^ 60"
  using fl64_representable[of 1 60] by simp

lemma fl64_pow_2_60_minus_1: "fl64 (2 ^ 60 - 1) = 2 ^ 60"
  using fl64_eval[of 59 "2 ^ 60 - 1"]
  by (simp add: round_ties_even_def Let_def)

lemma fl64_1000_pow_2_60: "fl64 (1000 * 2 ^ 60) = 1000 * 2 ^ 60"
  using fl64_representable[of 1000 60] by simp

lemma pmt_binary64_1000_12_5: "pmt binary64 12 5 1000 = 1000"
proof -
  have "pmt binary64 12 5 1000 = fl64 (fl64 (1000 * fl64 (1 * fl64 (2 powr 60))) / fl64 (fl64 (2 powr 60) - 1))"
    by (simp add: pmt_def Let_def arith_binary64 fl64_numeral fl64_one)
  also have "\<dots> = fl64 (fl64 (1000 * 2 ^ 60) / 2 ^ 60)"
    unfolding fl64_pow_2_60 mult_1 fl64_pow_2_60_minus_1
    using fl64_representable[of 1 60] by simp
  also have "\<dots> = fl64 1000" unfolding fl64_1000_pow_2_60 by simp
  also have "\<dots> = 1000" by (simp add: fl64_numeral)
  finally show ?thesis .
qed

lemma amort_step_binary64_1000: "amort_step binary64 1000 1 1000 = 1000"
  by (simp add: amort_step_def arith_binary64 fl64_numeral fl64_0)

text \<open>
  On doubles too a term of a whole number \<open>M\<close> of months gives \<open>M\<close> rows.
\<close>

lemma buildAmort_binary64_row_count:
  assumes "y * 12 = real M" "M < 2 ^ 53"
  shows "length (buildAmort binary64 P a y) = M"
proof -
  have "\<bar>int M\<bar> < 2 ^ 53" using assms(2) by simp
  then have "fl64 (real_of_int (int M)) = real_of_int (int M)" by (rule fl64_of_int)
  then have "fl64 (y * 12) = real M" using assms(1) by simp
  then show ?thesis by (simp add: buildAmort_length arith_binary64)
qed

text \<open>
  C1 fails on doubles, and with it the sentence of the repository's README that the last
  payment brings the balance to 0. For a loan of 1000 at an annual rate of 12 (1200 percent)
  over 5 years the monthly rate is 1 and the growth factor \<open>2 ^ 60\<close>; the denominator
  \<open>2 ^ 60 - 1\<close> of the annuity formula is rounded to \<open>2 ^ 60\<close>, so the payment is 1000, all
  of it interest: no principal is ever repaid. The schedule has its 60 rows, the balance
  of the last one is 1000 and the principal fields add up to 0.
\<close>

theorem buildAmort_balance_stuck:
  "buildAmort binary64 1000 12 5
   = map (\<lambda>i. \<lparr>month = i, payment = 1000, interest = 1000, principal = 0, balance = 1000\<rparr>)
       [1..<61]
   \<and> length (buildAmort binary64 1000 12 5) = 60
   \<and> balance (last (buildAmort binary64 1000 12 5)) = 1000
   \<and> sum_list (map principal (buildAmort binary64 1000 12 5)) = 0"
proof -
  have r: "js_div binary64 12 12 = 1" by (simp add: arith_binary64 fl64_one)
  have m: "js_mul binary64 5 12 = 60" by (simp add: arith_binary64 fl64_numeral)
  have row: "amort_row binary64 1000 1 j 1000
             = \<lparr>month = j, payment = 1000, interest = 1000, principal = 0, balance = 1000\<rparr>" for j
    unfolding amort_row_def amort_step_binary64_1000
    by (simp add: arith_binary64 fl64_numeral fl64_0 round2_binary64_numeral round2_binary64_zero)
  have "amort_step binary64 (pmt binary64 12 5 1000) (js_div binary64 12 12) 1000 = 1000"
    unfolding pmt_binary64_1000_12_5 r by (rule amort_step_binary64_1000)
  from buildAmort_rows_fixed[OF this]
  have rows: "buildAmort binary64 1000 12 5
        = map (\<lambda>i. \<lparr>month = i, payment = 1000, interest = 1000, principal = 0, balance = 1000\<rparr>)
            [1..<61]"
    unfolding pmt_binary64_1000_12_5 r m row by simp
  have len: "length (buildAmort binary64 1000 12 5) = 60" unfolding rows by simp
  have ne: "[1..<61::nat] \<noteq> []" by simp
  have lst: "balance (last (buildAmort binary64 1000 12 5)) = 1000"
    unfolding rows last_map[OF ne] by simp
  have sm: "sum_list (map principal (buildAmort binary64 1000 12 5)) = 0"
    unfolding rows by (simp add: o_def del: upt_Suc)
  from rows len lst sm show ?thesis by blast
qed

section \<open>Schedules without a loan\<close>

lemma pmt_zero_principal: "pmt A a y 0 = 0"
  by (simp add: pmt_def)

lemma round2_exact_zero: "round2 exact_arith 0 = 0"
  by (simp add: round2_def arith_exact Math_round_def)

lemma buildAmort_zero_principal:
  assumes "amort_step A 0 (js_div A a 12) 0 = 0" "js_mul A 0 (js_div A a 12) = 0"
    and "js_sub A 0 0 = 0" "round2 A 0 = 0"
  shows "buildAmort A 0 a y
     = map (\<lambda>i. \<lparr>month = i, payment = 0, interest = 0, principal = 0, balance = 0\<rparr>)
         [1..<Suc (nat \<lfloor>js_mul A y 12\<rfloor>)]"
proof -
  have row: "amort_row A 0 (js_div A a 12) j 0
             = \<lparr>month = j, payment = 0, interest = 0, principal = 0, balance = 0\<rparr>" for j
    by (simp add: amort_row_def assms)
  have "amort_step A (pmt A a y 0) (js_div A a 12) 0 = 0"
    unfolding pmt_zero_principal by (rule assms(1))
  from buildAmort_rows_fixed[OF this] show ?thesis
    unfolding pmt_zero_principal row .
qed

text \<open>
  C7, as the code has it, on doubles and in exact arithmetic alike. With \<open>years = 0\<close> the
  loop bound is 0 and \<open>buildAmort\<close> returns no row. With \<open>principal = 0\<close> there is no
  guard: the loop still runs \<open>\<lfloor>years * 12\<rfloor>\<close> times (the product as the arithmetic gives
  it) and every row it pushes has payment, interest, principal and balance 0.
\<close>

theorem buildAmort_empty_or_zero_rows:
  "buildAmort binary64 P a 0 = []
   \<and> buildAmort binary64 0 a y
     = map (\<lambda>i. \<lparr>month = i, payment = 0, interest = 0, principal = 0, balance = 0\<rparr>)
         [1..<Suc (nat \<lfloor>fl64 (y * 12)\<rfloor>)]
   \<and> buildAmort exact_arith P a 0 = []
   \<and> buildAmort exact_arith 0 a y
     = map (\<lambda>i. \<lparr>month = i, payment = 0, interest = 0, principal = 0, balance = 0\<rparr>)
         [1..<Suc (nat \<lfloor>y * 12\<rfloor>)]"
proof -
  have "length (buildAmort binary64 P a 0) = 0"
    by (simp add: buildAmort_length arith_binary64 fl64_0)
  then have e1: "buildAmort binary64 P a 0 = []" by simp
  have "length (buildAmort exact_arith P a 0) = 0"
    by (simp add: buildAmort_length arith_exact)
  then have e2: "buildAmort exact_arith P a 0 = []" by simp
  have z1: "buildAmort binary64 0 a y
     = map (\<lambda>i. \<lparr>month = i, payment = 0, interest = 0, principal = 0, balance = 0\<rparr>)
         [1..<Suc (nat \<lfloor>fl64 (y * 12)\<rfloor>)]"
    using buildAmort_zero_principal[of binary64 a y]
    by (simp add: amort_step_def arith_binary64 fl64_0 round2_binary64_zero)
  have z2: "buildAmort exact_arith 0 a y
     = map (\<lambda>i. \<lparr>month = i, payment = 0, interest = 0, principal = 0, balance = 0\<rparr>)
         [1..<Suc (nat \<lfloor>y * 12\<rfloor>)]"
    using buildAmort_zero_principal[of exact_arith a y]
    by (simp add: amort_step_def arith_exact round2_exact_zero)
  from e1 z1 e2 z2 show ?thesis by blast
qed

text \<open>
  C7 as stated fails: a zero principal over ten years gives 120 rows, not an empty
  sequence.
\<close>

theorem buildAmort_zero_principal_counterexample:
  "buildAmort binary64 0 (fl64 (4 / 100)) 10 \<noteq> []
   \<and> length (buildAmort binary64 0 (fl64 (4 / 100)) 10) = 120
   \<and> buildAmort exact_arith 0 (4 / 100) 10 \<noteq> []"
proof -
  have l: "length (buildAmort binary64 0 (fl64 (4 / 100)) 10) = 120"
    by (simp add: buildAmort_length arith_binary64 fl64_numeral)
  have "length (buildAmort exact_arith 0 (4 / 100) 10) = 120"
    by (simp add: buildAmort_length arith_exact)
  then have "buildAmort exact_arith 0 (4 / 100) 10 \<noteq> []" by auto
  moreover have "buildAmort binary64 0 (fl64 (4 / 100)) 10 \<noteq> []" using l by auto
  ultimately show ?thesis using l by blast
qed

section \<open>The monthly payment\<close>

text \<open>
  C2. \<open>pmt\<close> returns 0 when the principal or the term is not positive; otherwise, at a rate
  that is not positive, the principal divided by the number of months; otherwise the
  annuity payment \<open>P * (r * (1 + r) powr n) / ((1 + r) powr n - 1)\<close> with \<open>r = a / 12\<close> and
  \<open>n = y * 12\<close>, every operation being the one of the arithmetic at hand. Read in exact
  arithmetic this is the annuity formula itself, where the power is the ordinary one
  \<open>(1 + r) ^ (k * 12)\<close> for a term of \<open>k\<close> whole years. On doubles and in exact arithmetic
  alike, \<open>pmt 0 10 120000 = 1000\<close>.
\<close>

theorem pmt_cases:
  "(P \<le> 0 \<or> y \<le> 0 \<longrightarrow> pmt A a y P = 0)
   \<and> (0 < P \<and> 0 < y \<and> a \<le> 0 \<longrightarrow> pmt A a y P = js_div A P (js_mul A y 12))
   \<and> (0 < P \<and> 0 < y \<and> 0 < a \<longrightarrow>
        pmt A a y P
        = js_div A
            (js_mul A P
               (js_mul A (js_div A a 12)
                  (js_pow A (js_add A 1 (js_div A a 12)) (js_mul A y 12))))
            (js_sub A (js_pow A (js_add A 1 (js_div A a 12)) (js_mul A y 12)) 1))
   \<and> (0 < P \<and> 0 < y \<and> a \<le> 0 \<longrightarrow> pmt exact_arith a y P = P / (y * 12))
   \<and> (0 < P \<and> 0 < y \<and> 0 < a \<longrightarrow>
        pmt exact_arith a y P
        = P * (a / 12 * (1 + a / 12) powr (y * 12)) / ((1 + a / 12) powr (y * 12) - 1))
   \<and> (0 < P \<and> 0 < k \<and> 0 < a \<longrightarrow>
        pmt exact_arith a (real k) P
        = P * (a / 12 * (1 + a / 12) ^ (k * 12)) / ((1 + a / 12) ^ (k * 12) - 1))
   \<and> pmt exact_arith 0 10 120000 = 1000
   \<and> pmt binary64 0 10 120000 = 1000"
proof -
  have pw: "(1 + a / 12) powr (real k * 12) = (1 + a / 12) ^ (k * 12)" if "0 < a"
  proof -
    have "real k * 12 = real (k * 12)" by simp
    then show ?thesis using that by (simp only: powr_realpow)
  qed
  have b: "pmt binary64 0 10 120000 = 1000"
    by (simp add: pmt_def Let_def arith_binary64 fl64_numeral)
  have g: "(P \<le> 0 \<or> y \<le> 0 \<longrightarrow> pmt A a y P = 0)
   \<and> (0 < P \<and> 0 < y \<and> a \<le> 0 \<longrightarrow> pmt A a y P = js_div A P (js_mul A y 12))
   \<and> (0 < P \<and> 0 < y \<and> 0 < a \<longrightarrow>
        pmt A a y P
        = js_div A
            (js_mul A P
               (js_mul A (js_div A a 12)
                  (js_pow A (js_add A 1 (js_div A a 12)) (js_mul A y 12))))
            (js_sub A (js_pow A (js_add A 1 (js_div A a 12)) (js_mul A y 12)) 1))"
    by (auto simp: pmt_def Let_def)
  have e: "(0 < P \<and> 0 < y \<and> a \<le> 0 \<longrightarrow> pmt exact_arith a y P = P / (y * 12))
   \<and> (0 < P \<and> 0 < y \<and> 0 < a \<longrightarrow>
        pmt exact_arith a y P
        = P * (a / 12 * (1 + a / 12) powr (y * 12)) / ((1 + a / 12) powr (y * 12) - 1))
   \<and> (0 < P \<and> 0 < k \<and> 0 < a \<longrightarrow>
        pmt exact_arith a (real k) P
        = P * (a / 12 * (1 + a / 12) ^ (k * 12)) / ((1 + a / 12) ^ (k * 12) - 1))
   \<and> pmt exact_arith 0 10 120000 = 1000"
    using pw by (auto simp: pmt_def Let_def arith_exact)
  from g e b show ?thesis by blast
qed

theorem pmt_cases_witness:
  "pmt binary64 (fl64 (4 / 100)) 20 0 = 0 \<and> pmt binary64 (fl64 (4 / 100)) 0 100000 = 0
   \<and> pmt binary64 0 10 120000 = js_div binary64 120000 (js_mul binary64 10 12)
   \<and> pmt binary64 12 5 1000
     = js_div binary64
            (js_mul binary64 1000
               (js_mul binary64 (js_div binary64 12 12)
                  (js_pow binary64 (js_add binary64 1 (js_div binary64 12 12))
                     (js_mul binary64 5 12))))
            (js_sub binary64 (js_pow binary64 (js_add binary64 1 (js_div binary64 12 12))
               (js_mul binary64 5 12)) 1)
   \<and> pmt exact_arith 0 10 120000 = 120000 / (10 * 12)
   \<and> pmt exact_arith 12 1 4095 = 4095 * (1 * 2 ^ 12) / (2 ^ 12 - 1)
   \<and> pmt exact_arith 12 1 4095 = 4096"
proof -
  have 1: "pmt binary64 (fl64 (4 / 100)) 20 0 = 0"
    using pmt_cases[of 0 20 binary64 "fl64 (4 / 100)"] by simp
  have 2: "pmt binary64 (fl64 (4 / 100)) 0 100000 = 0"
    using pmt_cases[of 100000 0 binary64 "fl64 (4 / 100)"] by simp
  have 3: "pmt binary64 0 10 120000 = js_div binary64 120000 (js_mul binary64 10 12)"
    using pmt_cases[of 120000 10 binary64 0] by simp
  have 4: "pmt binary64 12 5 1000
     = js_div binary64
            (js_mul binary64 1000
               (js_mul binary64 (js_div binary64 12 12)
                  (js_pow binary64 (js_add binary64 1 (js_div binary64 12 12))
                     (js_mul binary64 5 12))))
            (js_sub binary64 (js_pow binary64 (js_add binary64 1 (js_div binary64 12 12))
               (js_mul binary64 5 12)) 1)"
    using pmt_cases[of 1000 5 binary64 12] by simp
  have 5: "pmt exact_arith 0 10 120000 = 120000 / (10 * 12)"
    using pmt_cases[of 120000 10 exact_arith 0] by simp
  have 7: "pmt exact_arith 12 1 4095 = 4096"
    using pmt_cases[of 4095 1 exact_arith 12 1] by (simp add: arith_exact)
  have 6: "pmt exact_arith 12 1 4095 = 4095 * (1 * 2 ^ 12) / (2 ^ 12 - 1)"
    unfolding 7 by simp
  from 1 2 3 4 5 6 7 show ?thesis by blast
qed

section \<open>Affordability\<close>

text \<open>
  What the banner computes: it is good exactly when the funding gap is at most 0, the DTI
  at most 45 and the net cashflow at least 0; bad exactly when the gap is above 0, the DTI
  above 55 or the net cashflow below 0; and in need of attention exactly when it is not
  bad and the DTI is above 45. The bad test is made first, then the attention test.
\<close>

lemma affordability_as_coded:
  "(looksGood s \<longleftrightarrow> fundingGap s \<le> 0 \<and> dtiPct s \<le> 45 \<and> netAfter s \<ge> 0)
   \<and> (hasIssues s \<longleftrightarrow> fundingGap s > 0 \<or> dtiPct s > 55 \<or> netAfter s < 0)
   \<and> (needsAttention s \<longleftrightarrow>
        fundingGap s \<le> 0 \<and> 45 < dtiPct s \<and> dtiPct s \<le> 55 \<and> netAfter s \<ge> 0)
   \<and> bannerTitle s =
       (if fundingGap s > 0 \<or> dtiPct s > 55 \<or> netAfter s < 0
        then ''Financieel niet haalbaar in huidige vorm''
        else if dtiPct s > 45 then ''Haalbaar maar krap''
        else ''Financieel gezond en haalbaar'')"
  unfolding looksGood_def needsAttention_def hasIssues_def bannerTitle_def
    isFundingGapBad_def isDTIAmber_def isDTIRed_def isNetAfterBad_def
  by auto

lemma fl64_one_fiftieth: "fl64 (1 / 50) = 5764607523034235 / 288230376151711744"
  using fl64_eval[of "- 6" "1 / 50"]
  by (simp add: powr_neg_numeral round_ties_even_def Let_def)

lemma fl64_regTax: "fl64 (100000 * fl64 (1 / 50)) = 2000"
  unfolding fl64_one_fiftieth
  using fl64_eval[of 10 "100000 * (5764607523034235 / 288230376151711744)"]
  by (simp add: powr_neg_numeral round_ties_even_def Let_def)

text \<open>
  C5 asks a net cashflow above 0 for the good banner, as the README of the repository
  does. The component tests only for a net cashflow below 0, so at exactly 0 it differs: a
  household whose income equals its fixed costs, with no loan and the project paid in
  cash, has a funding gap of 0, a DTI of 0 and a net cashflow of 0, on doubles and in
  exact arithmetic alike, and gets the good banner.
\<close>

theorem affordability_good_at_net_zero:
  "calculateSummary binary64
     \<lparr>purchasePrice = 100000, registrationRatePct = 2, notaryFees = 3000,
      renovationBudget = 0, contingencyPct = 12, ownCash = 105000, cryptoNet = 0,
      familyLoanAmount = 0, familyLoanRatePct = 3 / 2, familyLoanTermYears = 15,
      bankLoanAmount = 0, bankRatePct = 4, bankTermYears = 25, netIncomeMonthly = 3000,
      otherFixedCostsMonthly = 3000, airbnbIncome = 800, useAirbnbIncome = False,
      businessUsePct = 15, projectName = ''Villa'', reportNotes = []\<rparr>
   = \<lparr>regTax = 2000, renoWithCont = 0, totalProject = 105000, totalSources = 105000,
      fundingGap = 0, bankMonthly = 0, familyMonthly = 0, totalDebt = 0, dtiPct = 0,
      netAfter = 0\<rparr>
   \<and> calculateSummary exact_arith
     \<lparr>purchasePrice = 100000, registrationRatePct = 2, notaryFees = 3000,
      renovationBudget = 0, contingencyPct = 12, ownCash = 105000, cryptoNet = 0,
      familyLoanAmount = 0, familyLoanRatePct = 3 / 2, familyLoanTermYears = 15,
      bankLoanAmount = 0, bankRatePct = 4, bankTermYears = 25, netIncomeMonthly = 3000,
      otherFixedCostsMonthly = 3000, airbnbIncome = 800, useAirbnbIncome = False,
      businessUsePct = 15, projectName = ''Villa'', reportNotes = []\<rparr>
   = \<lparr>regTax = 2000, renoWithCont = 0, totalProject = 105000, totalSources = 105000,
      fundingGap = 0, bankMonthly = 0, familyMonthly = 0, totalDebt = 0, dtiPct = 0,
      netAfter = 0\<rparr>
   \<and> looksGood
       \<lparr>regTax = 2000, renoWithCont = 0, totalProject = 105000, totalSources = 105000,
        fundingGap = 0, bankMonthly = 0, familyMonthly = 0, totalDebt = 0, dtiPct = 0,
        netAfter = 0\<rparr>
   \<and> bannerTitle
       \<lparr>regTax = 2000, renoWithCont = 0, totalProject = 105000, totalSources = 105000,
        fundingGap = 0, bankMonthly = 0, familyMonthly = 0, totalDebt = 0, dtiPct = 0,
        netAfter = 0\<rparr> = ''Financieel gezond en haalbaar''
   \<and> \<not> (0 < netAfter
       \<lparr>regTax = 2000, renoWithCont = 0, totalProject = 105000, totalSources = 105000,
        fundingGap = 0, bankMonthly = 0, familyMonthly = 0, totalDebt = 0, dtiPct = 0,
        netAfter = 0\<rparr>)"
proof -
  have b: "calculateSummary binary64
     \<lparr>purchasePrice = 100000, registrationRatePct = 2, notaryFees = 3000,
      renovationBudget = 0, contingencyPct = 12, ownCash = 105000, cryptoNet = 0,
      familyLoanAmount = 0, familyLoanRatePct = 3 / 2, familyLoanTermYears = 15,
      bankLoanAmount = 0, bankRatePct = 4, bankTermYears = 25, netIncomeMonthly = 3000,
      otherFixedCostsMonthly = 3000, airbnbIncome = 800, useAirbnbIncome = False,
      businessUsePct = 15, projectName = ''Villa'', reportNotes = []\<rparr>
   = \<lparr>regTax = 2000, renoWithCont = 0, totalProject = 105000, totalSources = 105000,
      fundingGap = 0, bankMonthly = 0, familyMonthly = 0, totalDebt = 0, dtiPct = 0,
      netAfter = 0\<rparr>"
    by (simp add: calculateSummary_def pmt_def Let_def arith_binary64 fl64_regTax
          fl64_numeral fl64_0 round2_binary64_numeral round2_binary64_zero)
  have e: "calculateSummary exact_arith
     \<lparr>purchasePrice = 100000, registrationRatePct = 2, notaryFees = 3000,
      renovationBudget = 0, contingencyPct = 12, ownCash = 105000, cryptoNet = 0,
      familyLoanAmount = 0, familyLoanRatePct = 3 / 2, familyLoanTermYears = 15,
      bankLoanAmount = 0, bankRatePct = 4, bankTermYears = 25, netIncomeMonthly = 3000,
      otherFixedCostsMonthly = 3000, airbnbIncome = 800, useAirbnbIncome = False,
      businessUsePct = 15, projectName = ''Villa'', reportNotes = []\<rparr>
   = \<lparr>regTax = 2000, renoWithCont = 0, totalProject = 105000, totalSources = 105000,
      fundingGap = 0, bankMonthly = 0, familyMonthly = 0, totalDebt = 0, dtiPct = 0,
      netAfter = 0\<rparr>"
    by (simp add: calculateSummary_def pmt_def Let_def arith_exact round2_def Math_round_def)
  have g: "looksGood
       \<lparr>regTax = 2000, renoWithCont = 0, totalProject = 105000, totalSources = 105000,
        fundingGap = 0, bankMonthly = 0, familyMonthly = 0, totalDebt = 0, dtiPct = 0,
        netAfter = 0\<rparr>
   \<and> bannerTitle
       \<lparr>regTax = 2000, renoWithCont = 0, totalProject = 105000, totalSources = 105000,
        fundingGap = 0, bankMonthly = 0, familyMonthly = 0, totalDebt = 0, dtiPct = 0,
        netAfter = 0\<rparr> = ''Financieel gezond en haalbaar''
   \<and> \<not> (0 < netAfter
       \<lparr>regTax = 2000, renoWithCont = 0, totalProject = 105000, totalSources = 105000,
        fundingGap = 0, bankMonthly = 0, familyMonthly = 0, totalDebt = 0, dtiPct = 0,
        netAfter = 0\<rparr>)"
    by (simp add: looksGood_def needsAttention_def hasIssues_def bannerTitle_def
        isFundingGapBad_def isDTIAmber_def isDTIRed_def isNetAfterBad_def)
  from b e g show ?thesis by blast
qed

section \<open>Overall risk\<close>

text \<open>
  C6. In any arithmetic, \<open>analyzeFinancials\<close> always builds three scenarios, so reading
  the middle one never fails. Its overall risk is the high one, red, whenever the funding
  gap is above 0, whatever the tier of the realistic scenario; otherwise it mirrors the
  tier of the realistic (middle) scenario: high is red, medium is yellow, low is green.
\<close>

theorem overall_risk:
  "\<exists>res. analyzeFinancials A inputs summary = Inr res
     \<and> ai_scenarios res = generateScenarios A inputs summary
     \<and> length (ai_scenarios res) = 3
     \<and> ai_scenarios res ! 1
         = calculateScenario A ''Realistisch'' (bankRatePct inputs) 0 (netIncomeMonthly inputs)
             inputs (familyMonthly summary)
     \<and> ai_riskColor res =
         (if fundingGap summary > 0 then red
          else case sc_risk (ai_scenarios res ! 1) of
                 Hoog \<Rightarrow> red | Gemiddeld \<Rightarrow> yellow | Laag \<Rightarrow> green)
     \<and> ai_riskLevel res =
         (if fundingGap summary > 0 then HoogRisicoTekort (Math_round (fundingGap summary))
          else case sc_risk (ai_scenarios res ! 1) of
                 Hoog \<Rightarrow> HoogRisicoDTI | Gemiddeld \<Rightarrow> GemiddeldRisico | Laag \<Rightarrow> LaagRisico)"
  unfolding analyzeFinancials_def assessOverallRisk_def generateScenarios_def Let_def
  by (cases "sc_risk (calculateScenario A ''Realistisch'' (bankRatePct inputs) 0
                        (netIncomeMonthly inputs) inputs (familyMonthly summary))") auto

section \<open>The loops of the grid\<close>

lemma rate_loop_unfold:
  "rate_loop A config b f n a r row =
     (if r \<le> maxRate config
      then rate_loop A config b f n a (js_add A r (stepRate config)) (row @ [grid_cell A b f n a r])
      else Some row)"
  by (subst rate_loop.simps) (simp add: Let_def grid_cell_def)

lemma steps_0: "steps A s 0 x = x"
  by (simp add: steps_def)

lemma steps_Suc: "steps A s (Suc k) x = steps A s k (js_add A x s)"
  by (simp only: steps_def funpow_Suc_right o_apply)

text \<open>Partial correctness of the inner loop, in any arithmetic.\<close>

lemma rate_loop_partial:
  assumes "rate_loop A config b f n a r row = Some out"
  shows "\<exists>k. out = row @ map (\<lambda>j. grid_cell A b f n a (steps A (stepRate config) j r)) [0..<k]
           \<and> (\<forall>j<k. steps A (stepRate config) j r \<le> maxRate config)
           \<and> \<not> steps A (stepRate config) k r \<le> maxRate config"
proof (rule rate_loop.raw_induct[where P = "\<lambda>A config b f n a r row out.
          \<exists>k. out = row @ map (\<lambda>j. grid_cell A b f n a (steps A (stepRate config) j r)) [0..<k]
           \<and> (\<forall>j<k. steps A (stepRate config) j r \<le> maxRate config)
           \<and> \<not> steps A (stepRate config) k r \<le> maxRate config", OF _ assms])
  fix rl :: "arithmetic \<Rightarrow> SensitivityConfig \<Rightarrow> real \<Rightarrow> real \<Rightarrow> real \<Rightarrow> real \<Rightarrow>
   real \<Rightarrow> SensitivityCell list \<Rightarrow> SensitivityCell list option"
  fix A config b f n a r row out
  assume IH: "\<And>A config b f n a r row out. rl A config b f n a r row = Some out \<Longrightarrow>
          \<exists>k. out = row @ map (\<lambda>j. grid_cell A b f n a (steps A (stepRate config) j r)) [0..<k]
           \<and> (\<forall>j<k. steps A (stepRate config) j r \<le> maxRate config)
           \<and> \<not> steps A (stepRate config) k r \<le> maxRate config"
  assume body: "(if r \<le> maxRate config then
        (let monthly' = pmt A (js_div A r 100) b a;
             totalDebt' = js_add A monthly' f;
             dti = (if n > 0 then js_mul A (js_div A totalDebt' n) 100 else 100)
         in rl A config b f n a (js_add A r (stepRate config))
              (row @ [\<lparr>amount = a, rate = round2 A r, monthly = round2 A monthly',
                        isComfortable = (dti \<le> 45)\<rparr>]))
      else Some row) = Some out"
  show "\<exists>k. out = row @ map (\<lambda>j. grid_cell A b f n a (steps A (stepRate config) j r)) [0..<k]
           \<and> (\<forall>j<k. steps A (stepRate config) j r \<le> maxRate config)
           \<and> \<not> steps A (stepRate config) k r \<le> maxRate config"
  proof (cases "r \<le> maxRate config")
    case False
    then have "out = row" using body by simp
    then show ?thesis using False by (intro exI[of _ 0]) (simp add: steps_0)
  next
    case True
    then have "rl A config b f n a (js_add A r (stepRate config)) (row @ [grid_cell A b f n a r]) = Some out"
      using body by (simp add: Let_def grid_cell_def)
    from IH[OF this] obtain k where k:
      "out = (row @ [grid_cell A b f n a r])
             @ map (\<lambda>j. grid_cell A b f n a (steps A (stepRate config) j (js_add A r (stepRate config)))) [0..<k]"
      "\<forall>j<k. steps A (stepRate config) j (js_add A r (stepRate config)) \<le> maxRate config"
      "\<not> steps A (stepRate config) k (js_add A r (stepRate config)) \<le> maxRate config"
      by blast
    have "map (\<lambda>j. grid_cell A b f n a (steps A (stepRate config) j r)) [0..<Suc k]
          = map (\<lambda>j. grid_cell A b f n a (steps A (stepRate config) j r)) (0 # map Suc [0..<k])"
      by (simp only: upt_conv_Cons[of 0 "Suc k"] zero_less_Suc if_True map_Suc_upt)
    also have "\<dots> = grid_cell A b f n a r
            # map (\<lambda>j. grid_cell A b f n a (steps A (stepRate config) j (js_add A r (stepRate config)))) [0..<k]"
      by (simp add: steps_0 steps_Suc o_def)
    finally have m: "map (\<lambda>j. grid_cell A b f n a (steps A (stepRate config) j r)) [0..<Suc k]
          = grid_cell A b f n a r
            # map (\<lambda>j. grid_cell A b f n a (steps A (stepRate config) j (js_add A r (stepRate config)))) [0..<k]" .
    have le: "\<forall>j<Suc k. steps A (stepRate config) j r \<le> maxRate config"
    proof (intro allI impI)
      fix j assume "j < Suc k"
      then show "steps A (stepRate config) j r \<le> maxRate config"
        using True k(2) by (cases j) (simp_all add: steps_0 steps_Suc)
    qed
    have "out = row @ map (\<lambda>j. grid_cell A b f n a (steps A (stepRate config) j r)) [0..<Suc k]"
      unfolding m using k(1) by simp
    moreover have "\<not> steps A (stepRate config) (Suc k) r \<le> maxRate config"
      using k(3) by (simp add: steps_Suc)
    ultimately show ?thesis using le by blast
  qed
qed

lemma rate_grid_cell: "rate (grid_cell A b f n a r) = round2 A r"
  by (simp add: grid_cell_def)

lemma rate_loop_same_rates:
  assumes "rate_loop A config b f n a1 r [] = Some row1"
    and "rate_loop A config b f n a2 r [] = Some row2"
  shows "map rate row1 = map rate row2"
proof -
  from rate_loop_partial[OF assms(1)] obtain k1 where k1:
    "row1 = map (\<lambda>j. grid_cell A b f n a1 (steps A (stepRate config) j r)) [0..<k1]"
    "\<forall>j<k1. steps A (stepRate config) j r \<le> maxRate config"
    "\<not> steps A (stepRate config) k1 r \<le> maxRate config"
    by auto
  from rate_loop_partial[OF assms(2)] obtain k2 where k2:
    "row2 = map (\<lambda>j. grid_cell A b f n a2 (steps A (stepRate config) j r)) [0..<k2]"
    "\<forall>j<k2. steps A (stepRate config) j r \<le> maxRate config"
    "\<not> steps A (stepRate config) k2 r \<le> maxRate config"
    by auto
  have "\<not> k1 < k2" using k1(3) k2(2) by blast
  moreover have "\<not> k2 < k1" using k2(3) k1(2) by blast
  ultimately have "k1 = k2" by simp
  then show ?thesis unfolding k1(1) k2(1) by (simp add: rate_grid_cell o_def)
qed

lemma amount_loop_partial:
  assumes "amount_loop A config b f n a grid = Some g"
  shows "\<forall>row \<in> set g. row \<in> set grid
           \<or> (\<exists>a'. rate_loop A config b f n a' (minRate config) [] = Some row)"
proof (rule amount_loop.raw_induct[where P = "\<lambda>A config b f n a grid g.
          \<forall>row \<in> set g. row \<in> set grid
           \<or> (\<exists>a'. rate_loop A config b f n a' (minRate config) [] = Some row)", OF _ assms])
  fix al :: "arithmetic \<Rightarrow> SensitivityConfig \<Rightarrow> real \<Rightarrow> real \<Rightarrow> real \<Rightarrow>
   real \<Rightarrow> SensitivityCell list list \<Rightarrow> SensitivityCell list list option"
  fix A config b f n a grid g
  assume IH: "\<And>A config b f n a grid g. al A config b f n a grid = Some g \<Longrightarrow>
          \<forall>row \<in> set g. row \<in> set grid
           \<or> (\<exists>a'. rate_loop A config b f n a' (minRate config) [] = Some row)"
  assume body: "(if a \<le> maxAmount config then
        (case rate_loop A config b f n a (minRate config) [] of
           None \<Rightarrow> None
         | Some row \<Rightarrow> al A config b f n (js_add A a (stepAmount config)) (grid @ [row]))
      else Some grid) = Some g"
  show "\<forall>row \<in> set g. row \<in> set grid
           \<or> (\<exists>a'. rate_loop A config b f n a' (minRate config) [] = Some row)"
  proof (cases "a \<le> maxAmount config")
    case False
    then show ?thesis using body by auto
  next
    case True
    then obtain row where row: "rate_loop A config b f n a (minRate config) [] = Some row"
      and rec: "al A config b f n (js_add A a (stepAmount config)) (grid @ [row]) = Some g"
      using body by (auto split: option.splits)
    from IH[OF rec] row show ?thesis by auto
  qed
qed

lemma amount_loop_unfold:
  "amount_loop A config b f n a grid =
     (if a \<le> maxAmount config
      then (case rate_loop A config b f n a (minRate config) [] of
              None \<Rightarrow> None
            | Some row \<Rightarrow> amount_loop A config b f n (js_add A a (stepAmount config)) (grid @ [row]))
      else Some grid)"
  by (subst amount_loop.simps) simp

lemma nsteps_0_iff: "0 < s \<Longrightarrow> nsteps lo hi s = 0 \<longleftrightarrow> hi < lo"
proof -
  assume s: "0 < s"
  have "nsteps lo hi s = 0 \<longleftrightarrow> \<lfloor>(hi - lo) / s\<rfloor> < 0" unfolding nsteps_def by linarith
  also have "\<dots> \<longleftrightarrow> (hi - lo) / s < 0" by (simp add: floor_less_iff)
  also have "\<dots> \<longleftrightarrow> hi < lo" using s by (simp add: divide_less_0_iff)
  finally show ?thesis .
qed

lemma nsteps_step: "0 < s \<Longrightarrow> lo \<le> hi \<Longrightarrow> nsteps lo hi s = Suc (nsteps (lo + s) hi s)"
proof -
  assume s: "0 < s" and le: "lo \<le> hi"
  have "(hi - (lo + s)) / s = (hi - lo) / s - 1" using s by (simp add: field_simps)
  then have e: "\<lfloor>(hi - (lo + s)) / s\<rfloor> = \<lfloor>(hi - lo) / s\<rfloor> - 1" by simp
  have "0 \<le> (hi - lo) / s" using s le by simp
  then have "0 \<le> \<lfloor>(hi - lo) / s\<rfloor>" by simp
  then show ?thesis unfolding nsteps_def e by linarith
qed

lemma map_upt_Suc_shift: "map g [0..<Suc k] = g 0 # map (\<lambda>j. g (Suc j)) [0..<k]"
proof -
  have "map g [0..<Suc k] = map g (0 # map Suc [0..<k])"
    by (simp only: upt_conv_Cons[of 0 "Suc k"] zero_less_Suc if_True map_Suc_upt)
  then show ?thesis by (simp add: o_def)
qed

lemma round2_exact_mono: "x \<le> y \<Longrightarrow> round2 exact_arith x \<le> round2 exact_arith y"
  unfolding round2_def arith_exact Math_round_def
  by (intro divide_right_mono) (auto intro!: floor_mono)

lemma sorted_wrt_map_upt_mono:
  fixes f :: "nat \<Rightarrow> real"
  assumes "\<And>i j. i \<le> j \<Longrightarrow> f i \<le> f j"
  shows "sorted_wrt (\<le>) (map f [a..<b])"
proof -
  have "sorted_wrt (\<le>) [a..<b]" by simp
  then have "sorted_wrt (\<lambda>i j. f i \<le> f j) [a..<b]"
    by (rule sorted_wrt_mono_rel[rotated]) (simp add: assms)
  then show ?thesis by (simp add: sorted_wrt_map)
qed

text \<open>
  In exact arithmetic, with positive steps, the grid is the table of the cells at
  \<open>minAmount + i * stepAmount\<close> and \<open>minRate + j * stepRate\<close>, and both loops end.
\<close>

lemma rate_loop_exact:
  assumes "0 < stepRate config"
  shows "rate_loop exact_arith config b f n a r row
         = Some (row @ map (\<lambda>j. grid_cell exact_arith b f n a (r + real j * stepRate config))
                         [0..<nsteps r (maxRate config) (stepRate config)])"
proof (induction k \<equiv> "nsteps r (maxRate config) (stepRate config)" arbitrary: r row)
  case 0
  then have "maxRate config < r" using nsteps_0_iff[OF assms] by simp
  then show ?case using 0 by (subst rate_loop_unfold) simp
next
  case (Suc k)
  have le: "r \<le> maxRate config"
    using Suc.hyps(2) nsteps_0_iff[OF assms, of r "maxRate config"] by (cases "r \<le> maxRate config") simp_all
  have k: "k = nsteps (r + stepRate config) (maxRate config) (stepRate config)"
    using Suc.hyps(2) nsteps_step[OF assms le] by simp
  have "rate_loop exact_arith config b f n a r row
        = rate_loop exact_arith config b f n a (r + stepRate config) (row @ [grid_cell exact_arith b f n a r])"
    using le by (subst rate_loop_unfold) (simp add: arith_exact)
  also have "\<dots> = Some ((row @ [grid_cell exact_arith b f n a r])
          @ map (\<lambda>j. grid_cell exact_arith b f n a (r + stepRate config + real j * stepRate config)) [0..<k])"
    using Suc.hyps(1)[OF k] k by simp
  also have "(row @ [grid_cell exact_arith b f n a r])
          @ map (\<lambda>j. grid_cell exact_arith b f n a (r + stepRate config + real j * stepRate config)) [0..<k]
        = row @ map (\<lambda>j. grid_cell exact_arith b f n a (r + real j * stepRate config)) [0..<Suc k]"
    unfolding map_upt_Suc_shift[of _ k] by (simp add: algebra_simps)
  finally show ?case using Suc.hyps(2) by simp
qed

lemma rate_loop_empty:
  "maxRate config < r \<Longrightarrow> rate_loop A config b f n a r row = Some row"
  by (subst rate_loop_unfold) simp

lemma amount_loop_exact:
  assumes "0 < stepAmount config"
    and "\<And>a'. rate_loop exact_arith config b f n a' (minRate config) [] = Some (R a')"
  shows "amount_loop exact_arith config b f n a grid
         = Some (grid @ map (\<lambda>i. R (a + real i * stepAmount config))
                          [0..<nsteps a (maxAmount config) (stepAmount config)])"
proof (induction k \<equiv> "nsteps a (maxAmount config) (stepAmount config)" arbitrary: a grid)
  case 0
  then have "maxAmount config < a" using nsteps_0_iff[OF assms(1)] by simp
  then show ?case using 0 by (subst amount_loop_unfold) simp
next
  case (Suc k)
  have le: "a \<le> maxAmount config"
    using Suc.hyps(2) nsteps_0_iff[OF assms(1), of a "maxAmount config"]
    by (cases "a \<le> maxAmount config") simp_all
  have k: "k = nsteps (a + stepAmount config) (maxAmount config) (stepAmount config)"
    using Suc.hyps(2) nsteps_step[OF assms(1) le] by simp
  have "amount_loop exact_arith config b f n a grid
        = amount_loop exact_arith config b f n (a + stepAmount config) (grid @ [R a])"
    using le by (subst amount_loop_unfold) (simp add: assms(2) arith_exact)
  also have "\<dots> = Some ((grid @ [R a])
          @ map (\<lambda>i. R (a + stepAmount config + real i * stepAmount config)) [0..<k])"
    using Suc.hyps(1)[OF k] k by simp
  also have "(grid @ [R a])
          @ map (\<lambda>i. R (a + stepAmount config + real i * stepAmount config)) [0..<k]
        = grid @ map (\<lambda>i. R (a + real i * stepAmount config)) [0..<Suc k]"
    unfolding map_upt_Suc_shift[of _ k] by (simp add: algebra_simps)
  finally show ?case using Suc.hyps(2) by simp
qed

lemma generateSensitivityGrid_exact:
  assumes "0 < stepAmount config" "0 < stepRate config"
  shows "generateSensitivityGrid exact_arith config b f n oc
         = Some (map (\<lambda>i. map (\<lambda>j. grid_cell exact_arith b f n (minAmount config + real i * stepAmount config)
                                        (minRate config + real j * stepRate config))
                              [0..<nsteps (minRate config) (maxRate config) (stepRate config)])
                     [0..<nsteps (minAmount config) (maxAmount config) (stepAmount config)])"
  unfolding generateSensitivityGrid_def
  using amount_loop_exact[OF assms(1), of b f n
      "\<lambda>a'. map (\<lambda>j. grid_cell exact_arith b f n a' (minRate config + real j * stepRate config))
                [0..<nsteps (minRate config) (maxRate config) (stepRate config)]"
      "minAmount config" "[]"]
    rate_loop_exact[OF assms(2), of b f n _ "minRate config" "[]"]
  by simp

lemma nsteps_floor:
  "0 < s \<Longrightarrow> lo \<le> hi \<Longrightarrow> int (nsteps lo hi s) = \<lfloor>(hi - lo) / s\<rfloor> + 1"
proof -
  assume "0 < s" "lo \<le> hi"
  then have "0 \<le> (hi - lo) / s" by simp
  then have "0 \<le> \<lfloor>(hi - lo) / s\<rfloor>" by simp
  then show ?thesis unfolding nsteps_def by simp
qed

lemma sorted_wrt_map_upt_strict:
  fixes g :: "nat \<Rightarrow> real"
  assumes "\<And>i j. i < j \<Longrightarrow> g i < g j"
  shows "sorted_wrt (<) (map g [0..<k])"
proof -
  have "sorted_wrt (<) [0..<k]" by simp
  then have "sorted_wrt (\<lambda>i j. g i < g j) [0..<k]"
    by (rule sorted_wrt_mono_rel[rotated]) (simp add: assms)
  then show ?thesis by (simp add: sorted_wrt_map)
qed

lemma generateSensitivityGrid_exact_dimensions:
  assumes "0 < stepAmount config" "0 < stepRate config"
    and "minAmount config \<le> maxAmount config" "minRate config \<le> maxRate config"
  shows "\<exists>grid. generateSensitivityGrid exact_arith config b f n oc = Some grid
     \<and> int (length grid) = \<lfloor>(maxAmount config - minAmount config) / stepAmount config\<rfloor> + 1
     \<and> (\<forall>row \<in> set grid.
           int (length row) = \<lfloor>(maxRate config - minRate config) / stepRate config\<rfloor> + 1
           \<and> sorted (map rate row))
     \<and> sorted_wrt (<) (map (\<lambda>row. amount (row ! 0)) grid)"
proof -
  define kA where "kA = nsteps (minAmount config) (maxAmount config) (stepAmount config)"
  define kR where "kR = nsteps (minRate config) (maxRate config) (stepRate config)"
  define G where "G = map (\<lambda>i. map (\<lambda>j. grid_cell exact_arith b f n (minAmount config + real i * stepAmount config)
                                        (minRate config + real j * stepRate config))
                              [0..<kR]) [0..<kA]"
  have g: "generateSensitivityGrid exact_arith config b f n oc = Some G"
    unfolding G_def kA_def kR_def by (rule generateSensitivityGrid_exact[OF assms(1,2)])
  have lA: "int (length G) = \<lfloor>(maxAmount config - minAmount config) / stepAmount config\<rfloor> + 1"
    unfolding G_def kA_def using nsteps_floor[OF assms(1,3)] by simp
  have kRpos: "0 < kR"
    unfolding kR_def using nsteps_0_iff[OF assms(2), of "minRate config" "maxRate config"] assms(4)
    by (cases "nsteps (minRate config) (maxRate config) (stepRate config)") simp_all
  have rows: "\<forall>row \<in> set G.
           int (length row) = \<lfloor>(maxRate config - minRate config) / stepRate config\<rfloor> + 1
           \<and> sorted (map rate row)"
  proof
    fix row assume "row \<in> set G"
    then obtain i where row: "row = map (\<lambda>j. grid_cell exact_arith b f n (minAmount config + real i * stepAmount config)
                                        (minRate config + real j * stepRate config)) [0..<kR]"
      unfolding G_def by auto
    have l: "int (length row) = \<lfloor>(maxRate config - minRate config) / stepRate config\<rfloor> + 1"
      unfolding row kR_def using nsteps_floor[OF assms(2,4)] by simp
    have "map rate row = map (\<lambda>j. round2 exact_arith (minRate config + real j * stepRate config)) [0..<kR]"
      unfolding row by (simp add: rate_grid_cell o_def)
    moreover have "sorted_wrt (\<le>) (map (\<lambda>j. round2 exact_arith (minRate config + real j * stepRate config)) [0..<kR])"
      using assms(2) by (intro sorted_wrt_map_upt_mono round2_exact_mono add_left_mono mult_right_mono) simp_all
    ultimately have "sorted (map rate row)" by simp
    with l show "int (length row) = \<lfloor>(maxRate config - minRate config) / stepRate config\<rfloor> + 1
           \<and> sorted (map rate row)" by blast
  qed
  have "map (\<lambda>row. amount (row ! 0)) G
        = map (\<lambda>i. minAmount config + real i * stepAmount config) [0..<kA]"
    unfolding G_def using kRpos by (simp add: grid_cell_def o_def)
  moreover have "sorted_wrt (<) (map (\<lambda>i. minAmount config + real i * stepAmount config) [0..<kA])"
    using assms(1) by (intro sorted_wrt_map_upt_strict) simp
  ultimately have am: "sorted_wrt (<) (map (\<lambda>row. amount (row ! 0)) G)" by simp
  from g lA rows am show ?thesis by blast
qed

section \<open>A grid on doubles\<close>

lemma fl64_one_fifth: "fl64 (1 / 5) = 7205759403792794 / 36028797018963968"
  using fl64_eval[of "- 3" "1 / 5"]
  by (simp add: powr_neg_numeral round_ties_even_def Let_def)

lemma fl64_18_fifths: "fl64 (18 / 5) = 8106479329266893 / 2251799813685248"
  using fl64_eval[of 1 "18 / 5"]
  by (simp add: powr_neg_numeral round_ties_even_def Let_def)

lemma ieee_rate_1:
  "fl64 (3 + 7205759403792794 / 36028797018963968) = 7205759403792794 / 2251799813685248"
  using fl64_eval[of 1 "3 + 7205759403792794 / 36028797018963968"]
  by (simp add: powr_neg_numeral round_ties_even_def Let_def)

lemma ieee_rate_2:
  "fl64 (7205759403792794 / 2251799813685248 + 7205759403792794 / 36028797018963968)
   = 7656119366529844 / 2251799813685248"
  using fl64_eval[of 1 "7205759403792794 / 2251799813685248 + 7205759403792794 / 36028797018963968"]
  by (simp add: powr_neg_numeral round_ties_even_def Let_def)

lemma ieee_rate_3:
  "fl64 (7656119366529844 / 2251799813685248 + 7205759403792794 / 36028797018963968)
   = 8106479329266894 / 2251799813685248"
  using fl64_eval[of 1 "7656119366529844 / 2251799813685248 + 7205759403792794 / 36028797018963968"]
  by (simp add: powr_neg_numeral round_ties_even_def Let_def)

lemma fl64_16_fifths: "fl64 (16 / 5) = 7205759403792794 / 2251799813685248"
  using fl64_eval[of 1 "16 / 5"]
  by (simp add: powr_neg_numeral round_ties_even_def Let_def)

lemma round2_rate_1:
  "round2 binary64 (7205759403792794 / 2251799813685248) = fl64 (16 / 5)"
proof -
  have h: "fl64 (7205759403792794 / 2251799813685248 * 100) = 320"
    using fl64_eval[of 8 "7205759403792794 / 2251799813685248 * 100"]
    by (simp add: powr_neg_numeral round_ties_even_def Let_def)
  show ?thesis unfolding round2_def arith_binary64 h by (simp add: Math_round_def)
qed

lemma round2_rate_2:
  "round2 binary64 (7656119366529844 / 2251799813685248) = fl64 (17 / 5)"
proof -
  have h: "fl64 (7656119366529844 / 2251799813685248 * 100) = 5981343255101441 / 17592186044416"
    using fl64_eval[of 8 "7656119366529844 / 2251799813685248 * 100"]
    by (simp add: powr_neg_numeral round_ties_even_def Let_def)
  show ?thesis unfolding round2_def arith_binary64 h by (simp add: Math_round_def)
qed

lemma rate_loop_three:
  assumes "r0 \<le> maxRate config" "js_add A r0 (stepRate config) = r1"
    and "r1 \<le> maxRate config" "js_add A r1 (stepRate config) = r2"
    and "r2 \<le> maxRate config" "js_add A r2 (stepRate config) = r3"
    and "\<not> r3 \<le> maxRate config"
  shows "rate_loop A config b f n a r0 []
         = Some [grid_cell A b f n a r0, grid_cell A b f n a r1, grid_cell A b f n a r2]"
proof -
  have "rate_loop A config b f n a r0 []
        = rate_loop A config b f n a r1 [grid_cell A b f n a r0]"
    using assms(1,2) by (subst rate_loop_unfold) simp
  also have "\<dots> = rate_loop A config b f n a r2 [grid_cell A b f n a r0, grid_cell A b f n a r1]"
    using assms(3,4) by (subst rate_loop_unfold) simp
  also have "\<dots> = rate_loop A config b f n a r3
                      [grid_cell A b f n a r0, grid_cell A b f n a r1, grid_cell A b f n a r2]"
    using assms(5,6) by (subst rate_loop_unfold) simp
  also have "\<dots> = Some [grid_cell A b f n a r0, grid_cell A b f n a r1, grid_cell A b f n a r2]"
    using assms(7) by (subst rate_loop_unfold) simp
  finally show ?thesis .
qed

lemma amount_loop_three:
  assumes "\<And>a'. rate_loop A config b f n a' (minRate config) [] = Some (R a')"
    and "a0 \<le> maxAmount config" "js_add A a0 (stepAmount config) = a1"
    and "a1 \<le> maxAmount config" "js_add A a1 (stepAmount config) = a2"
    and "a2 \<le> maxAmount config" "js_add A a2 (stepAmount config) = a3"
    and "\<not> a3 \<le> maxAmount config"
  shows "amount_loop A config b f n a0 [] = Some [R a0, R a1, R a2]"
proof -
  have "amount_loop A config b f n a0 [] = amount_loop A config b f n a1 [R a0]"
    using assms(1,2,3) by (subst amount_loop_unfold) simp
  also have "\<dots> = amount_loop A config b f n a2 [R a0, R a1]"
    using assms(1,4,5) by (subst amount_loop_unfold) simp
  also have "\<dots> = amount_loop A config b f n a3 [R a0, R a1, R a2]"
    using assms(1,6,7) by (subst amount_loop_unfold) simp
  also have "\<dots> = Some [R a0, R a1, R a2]"
    using assms(8) by (subst amount_loop_unfold) simp
  finally show ?thesis .
qed

text \<open>
  The grid of the amounts 600000 to 700000 by 50000 and the rates 3.0 to 3.6 by 0.2, on
  doubles: the rate counter takes the values 3, 3.2, 3.4000000000000004 and
  3.6000000000000005, and the last one is above the double 3.6.
\<close>

lemma grid_binary64_example:
  "generateSensitivityGrid binary64
       \<lparr>minAmount = 600000, maxAmount = 700000, stepAmount = 50000,
        minRate = 3, maxRate = fl64 (18 / 5), stepRate = fl64 (1 / 5)\<rparr> 25 0 10000 0
   = Some (map (\<lambda>a'. [grid_cell binary64 25 0 10000 a' 3,
                       grid_cell binary64 25 0 10000 a' (7205759403792794 / 2251799813685248),
                       grid_cell binary64 25 0 10000 a' (7656119366529844 / 2251799813685248)])
             [600000, 650000, 700000])"
proof -
  define config where "config = \<lparr>minAmount = 600000, maxAmount = 700000, stepAmount = 50000,
        minRate = 3, maxRate = fl64 (18 / 5), stepRate = fl64 (1 / 5)\<rparr>"
  define r1 :: real where "r1 = 7205759403792794 / 2251799813685248"
  define r2 :: real where "r2 = 7656119366529844 / 2251799813685248"
  define r3 :: real where "r3 = 8106479329266894 / 2251799813685248"
  have sel: "minAmount config = 600000" "maxAmount config = 700000" "stepAmount config = 50000"
    "minRate config = 3" "maxRate config = fl64 (18 / 5)" "stepRate config = fl64 (1 / 5)"
    by (simp_all add: config_def)
  have s1: "js_add binary64 3 (stepRate config) = r1"
    unfolding sel fl64_one_fifth r1_def arith_binary64 by (rule ieee_rate_1)
  have s2: "js_add binary64 r1 (stepRate config) = r2"
    unfolding sel fl64_one_fifth r1_def r2_def arith_binary64 by (rule ieee_rate_2)
  have s3: "js_add binary64 r2 (stepRate config) = r3"
    unfolding sel fl64_one_fifth r2_def r3_def arith_binary64 by (rule ieee_rate_3)
  have c0: "3 \<le> maxRate config" unfolding sel fl64_18_fifths by simp
  have c1: "r1 \<le> maxRate config" unfolding sel fl64_18_fifths r1_def by simp
  have c2: "r2 \<le> maxRate config" unfolding sel fl64_18_fifths r2_def by simp
  have c3: "\<not> r3 \<le> maxRate config" unfolding sel fl64_18_fifths r3_def by simp
  have row: "rate_loop binary64 config 25 0 10000 a' (minRate config) []
             = Some [grid_cell binary64 25 0 10000 a' 3, grid_cell binary64 25 0 10000 a' r1,
                     grid_cell binary64 25 0 10000 a' r2]" for a'
    unfolding sel(4)
    by (rule rate_loop_three[where A = binary64 and config = config and ?r0.0 = 3
          and ?r1.0 = r1 and ?r2.0 = r2 and ?r3.0 = r3, OF c0 s1 c1 s2 c2 s3 c3])
  have a1: "js_add binary64 600000 (stepAmount config) = 650000"
    unfolding sel by (simp add: arith_binary64 fl64_numeral)
  have a2: "js_add binary64 650000 (stepAmount config) = 700000"
    unfolding sel by (simp add: arith_binary64 fl64_numeral)
  have a3: "js_add binary64 700000 (stepAmount config) = 750000"
    unfolding sel by (simp add: arith_binary64 fl64_numeral)
  have g: "generateSensitivityGrid binary64 config 25 0 10000 0
           = Some (map (\<lambda>a'. [grid_cell binary64 25 0 10000 a' 3,
                               grid_cell binary64 25 0 10000 a' r1,
                               grid_cell binary64 25 0 10000 a' r2]) [600000, 650000, 700000])"
    unfolding generateSensitivityGrid_def sel(1)
    using amount_loop_three[of binary64 config 25 0 10000
        "\<lambda>a'. [grid_cell binary64 25 0 10000 a' 3, grid_cell binary64 25 0 10000 a' r1,
               grid_cell binary64 25 0 10000 a' r2]"
        600000 650000 700000 750000, OF row _ a1 _ a2 _ a3]
    by (simp add: sel)
  show ?thesis using g unfolding config_def r1_def r2_def .
qed

text \<open>
  C10. Whenever \<open>generateSensitivityGrid\<close> returns a grid, on doubles as in any other
  arithmetic, every row of the grid carries the rates that \<open>getRates\<close> reads
  from the first row, and so has as many cells as \<open>getRates\<close> has rates: the grid is
  rectangular.
\<close>

theorem sensitivity_grid_rectangular:
  assumes "generateSensitivityGrid A config bankTermYears' familyMonthly' netIncomeMonthly'
             otherFixedCostsMonthly' = Some grid"
  shows "\<forall>row \<in> set grid. map rate row = getRates grid \<and> length row = length (getRates grid)"
proof
  fix row assume row: "row \<in> set grid"
  then have ne: "grid \<noteq> []" by auto
  then have first: "grid ! 0 \<in> set grid" by simp
  have src: "\<forall>row \<in> set grid. \<exists>a'. rate_loop A config bankTermYears' familyMonthly'
                 netIncomeMonthly' a' (minRate config) [] = Some row"
    using amount_loop_partial[OF assms[unfolded generateSensitivityGrid_def]] by simp
  from src row obtain a1 where a1: "rate_loop A config bankTermYears' familyMonthly'
                 netIncomeMonthly' a1 (minRate config) [] = Some row" by blast
  from src first obtain a2 where a2: "rate_loop A config bankTermYears' familyMonthly'
                 netIncomeMonthly' a2 (minRate config) [] = Some (grid ! 0)" by blast
  have "map rate row = map rate (grid ! 0)" by (rule rate_loop_same_rates[OF a1 a2])
  then have eq: "map rate row = getRates grid" using ne by (simp add: getRates_def)
  have "length (map rate row) = length row" by simp
  then have "length row = length (getRates grid)" unfolding eq by simp
  then show "map rate row = getRates grid \<and> length row = length (getRates grid)"
    using eq by blast
qed

theorem sensitivity_grid_rectangular_witness:
  "\<exists>grid. generateSensitivityGrid binary64
       \<lparr>minAmount = 600000, maxAmount = 700000, stepAmount = 50000,
        minRate = 3, maxRate = fl64 (18 / 5), stepRate = fl64 (1 / 5)\<rparr> 25 0 10000 0
       = Some grid
     \<and> length grid = 3
     \<and> list_all (\<lambda>row. map rate row = getRates grid \<and> length row = length (getRates grid)) grid"
proof -
  define config where "config = \<lparr>minAmount = 600000, maxAmount = 700000, stepAmount = 50000,
        minRate = 3, maxRate = fl64 (18 / 5), stepRate = fl64 (1 / 5)\<rparr>"
  define grid where "grid = map (\<lambda>a'. [grid_cell binary64 25 0 10000 a' 3,
                       grid_cell binary64 25 0 10000 a' (7205759403792794 / 2251799813685248),
                       grid_cell binary64 25 0 10000 a' (7656119366529844 / 2251799813685248)])
             [600000, 650000, 700000]"
  have g: "generateSensitivityGrid binary64 config 25 0 10000 0 = Some grid"
    unfolding config_def grid_def by (rule grid_binary64_example)
  have "length grid = 3" by (simp add: grid_def)
  moreover have "list_all (\<lambda>row. map rate row = getRates grid \<and> length row = length (getRates grid)) grid"
    using sensitivity_grid_rectangular[OF g] by (simp add: list_all_iff)
  ultimately show ?thesis using g unfolding config_def by blast
qed

lemma fl64_rate_span:
  "fl64 (8106479329266893 / 2251799813685248 - 3) = 1351079888211149 / 2251799813685248"
  using fl64_eval[of "- 1" "8106479329266893 / 2251799813685248 - 3"]
  by (simp add: powr_neg_numeral round_ties_even_def Let_def)

lemma fl64_rate_quotient:
  "fl64 (1351079888211149 / 2251799813685248 / (7205759403792794 / 36028797018963968))
   = 6755399441055745 / 2251799813685248"
  using fl64_eval[of 1 "1351079888211149 / 2251799813685248 / (7205759403792794 / 36028797018963968)"]
  by (simp add: powr_neg_numeral round_ties_even_def Let_def)

text \<open>
  C3 fails on doubles. For amounts 600000 to 700000 by 50000 and rates 3.0 to 3.6 by 0.2,
  the rate counter takes the values 3, 3.2, 3.4000000000000004 and 3.6000000000000005; the
  last one is above the double 3.6, so every row has three cells, while
  \<open>\<lfloor>(maxRate - minRate) / stepRate\<rfloor> + 1\<close> is 4 on the very doubles of the configuration,
  whether the difference and the quotient are exact or rounded as the doubles do.
  (In exact arithmetic the dimensions are the claimed ones:
  \<open>generateSensitivityGrid_exact_dimensions\<close>.)
\<close>

theorem sensitivity_grid_ieee_drift:
  "\<exists>grid. generateSensitivityGrid binary64
       \<lparr>minAmount = 600000, maxAmount = 700000, stepAmount = 50000,
        minRate = 3, maxRate = fl64 (18 / 5), stepRate = fl64 (1 / 5)\<rparr> 25 0 10000 0
     = Some grid
     \<and> map length grid = [3, 3, 3]
     \<and> getRates grid = [3, fl64 (16 / 5), fl64 (17 / 5)]
     \<and> \<lfloor>(fl64 (18 / 5) - 3) / fl64 (1 / 5)\<rfloor> + 1 = 4
     \<and> \<lfloor>js_div binary64 (js_sub binary64 (fl64 (18 / 5)) 3) (fl64 (1 / 5))\<rfloor> + 1 = 4"
proof -
  have rr: "round2 binary64 3 = 3" by (simp add: round2_binary64_numeral)
  have fm: "\<lfloor>(fl64 (18 / 5) - 3) / fl64 (1 / 5)\<rfloor> + 1 = 4"
    unfolding fl64_18_fifths fl64_one_fifth by simp
  have fd: "\<lfloor>js_div binary64 (js_sub binary64 (fl64 (18 / 5)) 3) (fl64 (1 / 5))\<rfloor> + 1 = 4"
    unfolding arith_binary64 fl64_18_fifths fl64_one_fifth fl64_rate_span fl64_rate_quotient
    by simp
  define r1 :: real where "r1 = 7205759403792794 / 2251799813685248"
  define r2 :: real where "r2 = 7656119366529844 / 2251799813685248"
  define grid where "grid = map (\<lambda>a'. [grid_cell binary64 25 0 10000 a' 3,
                       grid_cell binary64 25 0 10000 a' r1,
                       grid_cell binary64 25 0 10000 a' r2])
             [600000, 650000, 700000]"
  have g: "generateSensitivityGrid binary64
       \<lparr>minAmount = 600000, maxAmount = 700000, stepAmount = 50000,
        minRate = 3, maxRate = fl64 (18 / 5), stepRate = fl64 (1 / 5)\<rparr> 25 0 10000 0
     = Some grid"
    unfolding grid_def r1_def r2_def by (rule grid_binary64_example)
  have l: "map length grid = [3, 3, 3]" by (simp add: grid_def)
  have "getRates grid = [round2 binary64 3, round2 binary64 r1, round2 binary64 r2]"
    by (simp add: grid_def getRates_def rate_grid_cell)
  then have rt: "getRates grid = [3, fl64 (16 / 5), fl64 (17 / 5)]"
    unfolding rr r1_def r2_def round2_rate_1 round2_rate_2 .
  show ?thesis by (intro exI[of _ grid] conjI g l rt fm fd)
qed

section \<open>Malformed configurations\<close>

text \<open>
  A counter that the addition never takes above the bound keeps its loop running for
  ever.
\<close>

lemma rate_loop_diverges:
  assumes "\<And>x. x \<le> maxRate config \<Longrightarrow> js_add A x (stepRate config) \<le> maxRate config"
    and "r \<le> maxRate config"
  shows "rate_loop A config b f n a r row = None"
proof (rule ccontr)
  assume "rate_loop A config b f n a r row \<noteq> None"
  then obtain out where out: "rate_loop A config b f n a r row = Some out" by auto
  have "\<not> ((\<forall>x. x \<le> maxRate config \<longrightarrow> js_add A x (stepRate config) \<le> maxRate config)
           \<and> r \<le> maxRate config)"
  proof (rule rate_loop.raw_induct[where P = "\<lambda>A config b f n a r row out.
            \<not> ((\<forall>x. x \<le> maxRate config \<longrightarrow> js_add A x (stepRate config) \<le> maxRate config)
               \<and> r \<le> maxRate config)", OF _ out])
    fix rl :: "arithmetic \<Rightarrow> SensitivityConfig \<Rightarrow> real \<Rightarrow> real \<Rightarrow> real \<Rightarrow> real \<Rightarrow>
      real \<Rightarrow> SensitivityCell list \<Rightarrow> SensitivityCell list option"
    fix A config b f n a r row out
    assume IH: "\<And>A config b f n a r row out. rl A config b f n a r row = Some out \<Longrightarrow>
            \<not> ((\<forall>x. x \<le> maxRate config \<longrightarrow> js_add A x (stepRate config) \<le> maxRate config)
               \<and> r \<le> maxRate config)"
    assume body: "(if r \<le> maxRate config then
          (let monthly' = pmt A (js_div A r 100) b a;
               totalDebt' = js_add A monthly' f;
               dti = (if n > 0 then js_mul A (js_div A totalDebt' n) 100 else 100)
           in rl A config b f n a (js_add A r (stepRate config))
                (row @ [\<lparr>amount = a, rate = round2 A r, monthly = round2 A monthly',
                          isComfortable = (dti \<le> 45)\<rparr>]))
        else Some row) = Some out"
    show "\<not> ((\<forall>x. x \<le> maxRate config \<longrightarrow> js_add A x (stepRate config) \<le> maxRate config)
               \<and> r \<le> maxRate config)"
    proof
      assume h: "(\<forall>x. x \<le> maxRate config \<longrightarrow> js_add A x (stepRate config) \<le> maxRate config)
               \<and> r \<le> maxRate config"
      then have "rl A config b f n a (js_add A r (stepRate config)) (row @ [grid_cell A b f n a r])
                 = Some out"
        using body by (simp add: Let_def grid_cell_def)
      from IH[OF this] h show False by simp
    qed
  qed
  then show False using assms by simp
qed

lemma amount_loop_diverges:
  assumes "\<And>x. x \<le> maxAmount config \<Longrightarrow> js_add A x (stepAmount config) \<le> maxAmount config"
    and "a \<le> maxAmount config"
  shows "amount_loop A config b f n a grid = None"
proof (rule ccontr)
  assume "amount_loop A config b f n a grid \<noteq> None"
  then obtain g where g: "amount_loop A config b f n a grid = Some g" by auto
  have "\<not> ((\<forall>x. x \<le> maxAmount config \<longrightarrow> js_add A x (stepAmount config) \<le> maxAmount config)
           \<and> a \<le> maxAmount config)"
  proof (rule amount_loop.raw_induct[where P = "\<lambda>A config b f n a grid g.
            \<not> ((\<forall>x. x \<le> maxAmount config \<longrightarrow> js_add A x (stepAmount config) \<le> maxAmount config)
               \<and> a \<le> maxAmount config)", OF _ g])
    fix al :: "arithmetic \<Rightarrow> SensitivityConfig \<Rightarrow> real \<Rightarrow> real \<Rightarrow> real \<Rightarrow>
      real \<Rightarrow> SensitivityCell list list \<Rightarrow> SensitivityCell list list option"
    fix A config b f n a grid g
    assume IH: "\<And>A config b f n a grid g. al A config b f n a grid = Some g \<Longrightarrow>
            \<not> ((\<forall>x. x \<le> maxAmount config \<longrightarrow> js_add A x (stepAmount config) \<le> maxAmount config)
               \<and> a \<le> maxAmount config)"
    assume body: "(if a \<le> maxAmount config then
          (case rate_loop A config b f n a (minRate config) [] of
             None \<Rightarrow> None
           | Some row \<Rightarrow> al A config b f n (js_add A a (stepAmount config)) (grid @ [row]))
        else Some grid) = Some g"
    show "\<not> ((\<forall>x. x \<le> maxAmount config \<longrightarrow> js_add A x (stepAmount config) \<le> maxAmount config)
               \<and> a \<le> maxAmount config)"
    proof
      assume h: "(\<forall>x. x \<le> maxAmount config \<longrightarrow> js_add A x (stepAmount config) \<le> maxAmount config)
               \<and> a \<le> maxAmount config"
      then obtain row where "al A config b f n (js_add A a (stepAmount config)) (grid @ [row]) = Some g"
        using body by (auto split: option.splits)
      from IH[OF this] h show False by simp
    qed
  qed
  then show False using assms by simp
qed

text \<open>On doubles a step that is not positive never takes a counter above a bound.\<close>

lemma binary64_add_bounded:
  assumes "fl64 hi = hi" "s \<le> 0" "x \<le> hi"
  shows "js_add binary64 x s \<le> hi"
proof -
  have "x + s \<le> hi" using assms by simp
  then have "fl64 (x + s) \<le> fl64 hi" by (rule fl64_mono)
  then show ?thesis unfolding arith_binary64 assms(1) .
qed

text \<open>What the outer loop returns extends the rows it started with by rows of the inner loop.\<close>

lemma amount_loop_extends:
  assumes "amount_loop A config b f n a grid = Some g"
  shows "\<exists>rest. g = grid @ rest
           \<and> (\<forall>row \<in> set rest. \<exists>a'. rate_loop A config b f n a' (minRate config) [] = Some row)
           \<and> (a \<le> maxAmount config \<longrightarrow> rest \<noteq> [])"
proof (rule amount_loop.raw_induct[where P = "\<lambda>A config b f n a grid g.
          \<exists>rest. g = grid @ rest
           \<and> (\<forall>row \<in> set rest. \<exists>a'. rate_loop A config b f n a' (minRate config) [] = Some row)
           \<and> (a \<le> maxAmount config \<longrightarrow> rest \<noteq> [])", OF _ assms])
  fix al :: "arithmetic \<Rightarrow> SensitivityConfig \<Rightarrow> real \<Rightarrow> real \<Rightarrow> real \<Rightarrow>
   real \<Rightarrow> SensitivityCell list list \<Rightarrow> SensitivityCell list list option"
  fix A config b f n a grid g
  assume IH: "\<And>A config b f n a grid g. al A config b f n a grid = Some g \<Longrightarrow>
          \<exists>rest. g = grid @ rest
           \<and> (\<forall>row \<in> set rest. \<exists>a'. rate_loop A config b f n a' (minRate config) [] = Some row)
           \<and> (a \<le> maxAmount config \<longrightarrow> rest \<noteq> [])"
  assume body: "(if a \<le> maxAmount config then
        (case rate_loop A config b f n a (minRate config) [] of
           None \<Rightarrow> None
         | Some row \<Rightarrow> al A config b f n (js_add A a (stepAmount config)) (grid @ [row]))
      else Some grid) = Some g"
  show "\<exists>rest. g = grid @ rest
           \<and> (\<forall>row \<in> set rest. \<exists>a'. rate_loop A config b f n a' (minRate config) [] = Some row)
           \<and> (a \<le> maxAmount config \<longrightarrow> rest \<noteq> [])"
  proof (cases "a \<le> maxAmount config")
    case False
    then have "g = grid" using body by simp
    then show ?thesis using False by (intro exI[of _ "[]"]) simp
  next
    case True
    then obtain row where row: "rate_loop A config b f n a (minRate config) [] = Some row"
      and rec: "al A config b f n (js_add A a (stepAmount config)) (grid @ [row]) = Some g"
      using body by (auto split: option.splits)
    from IH[OF rec] obtain rest where rest: "g = (grid @ [row]) @ rest"
      "\<forall>row \<in> set rest. \<exists>a'. rate_loop A config b f n a' (minRate config) [] = Some row"
      by blast
    show ?thesis
      using rest row by (intro exI[of _ "row # rest"]) auto
  qed
qed

text \<open>
  As long as no addition of the step is rounded, the outer loop on doubles is the loop of
  exact arithmetic.
\<close>

lemma nsteps_less:
  assumes "0 < s" "k < nsteps lo hi s"
  shows "lo + real k * s \<le> hi"
proof -
  have "int k < \<lfloor>(hi - lo) / s\<rfloor> + 1" using assms(2) unfolding nsteps_def by linarith
  then have "int k \<le> \<lfloor>(hi - lo) / s\<rfloor>" by simp
  then have "real_of_int (int k) \<le> (hi - lo) / s" by (simp only: le_floor_iff)
  then have "real k * s \<le> hi - lo" using assms(1) by (simp add: pos_le_divide_eq)
  then show ?thesis by simp
qed

lemma amount_loop_unrounded:
  assumes "0 < stepAmount config"
    and "\<And>a'. rate_loop A config b f n a' (minRate config) [] = Some (R a')"
  shows "(\<forall>k < nsteps a (maxAmount config) (stepAmount config).
            js_add A (a + real k * stepAmount config) (stepAmount config)
            = a + real (Suc k) * stepAmount config) \<Longrightarrow>
         amount_loop A config b f n a grid
         = Some (grid @ map (\<lambda>i. R (a + real i * stepAmount config))
                          [0..<nsteps a (maxAmount config) (stepAmount config)])"
proof (induction k \<equiv> "nsteps a (maxAmount config) (stepAmount config)" arbitrary: a grid)
  case 0
  then have "maxAmount config < a" using nsteps_0_iff[OF assms(1)] by simp
  then show ?case using 0 by (subst amount_loop_unfold) simp
next
  case (Suc k)
  have le: "a \<le> maxAmount config"
    using Suc.hyps(2) nsteps_0_iff[OF assms(1), of a "maxAmount config"]
    by (cases "a \<le> maxAmount config") simp_all
  have k: "k = nsteps (a + stepAmount config) (maxAmount config) (stepAmount config)"
    using Suc.hyps(2) nsteps_step[OF assms(1) le] by simp
  have "0 < nsteps a (maxAmount config) (stepAmount config)" using Suc.hyps(2) by simp
  then have first: "js_add A a (stepAmount config) = a + stepAmount config"
    using Suc.prems by force
  have nxt: "\<forall>j < nsteps (a + stepAmount config) (maxAmount config) (stepAmount config).
            js_add A (a + stepAmount config + real j * stepAmount config) (stepAmount config)
            = a + stepAmount config + real (Suc j) * stepAmount config"
  proof (intro allI impI)
    fix j assume "j < nsteps (a + stepAmount config) (maxAmount config) (stepAmount config)"
    then have "Suc j < nsteps a (maxAmount config) (stepAmount config)"
      using k Suc.hyps(2) by simp
    then have "js_add A (a + real (Suc j) * stepAmount config) (stepAmount config)
            = a + real (Suc (Suc j)) * stepAmount config"
      using Suc.prems by blast
    moreover have "a + real (Suc j) * stepAmount config
                   = a + stepAmount config + real j * stepAmount config"
      by (simp add: algebra_simps)
    moreover have "a + real (Suc (Suc j)) * stepAmount config
                   = a + stepAmount config + real (Suc j) * stepAmount config"
      by (simp add: algebra_simps)
    ultimately show "js_add A (a + stepAmount config + real j * stepAmount config) (stepAmount config)
            = a + stepAmount config + real (Suc j) * stepAmount config"
      by (simp only:)
  qed
  have "amount_loop A config b f n a grid
        = amount_loop A config b f n (a + stepAmount config) (grid @ [R a])"
    using le by (subst amount_loop_unfold) (simp add: assms(2) first)
  also have "\<dots> = Some ((grid @ [R a])
          @ map (\<lambda>i. R (a + stepAmount config + real i * stepAmount config)) [0..<k])"
    using Suc.hyps(1)[OF k nxt] k by simp
  also have "(grid @ [R a])
          @ map (\<lambda>i. R (a + stepAmount config + real i * stepAmount config)) [0..<k]
        = grid @ map (\<lambda>i. R (a + real i * stepAmount config)) [0..<Suc k]"
    unfolding map_upt_Suc_shift[of _ k] by (simp add: algebra_simps)
  finally show ?case using Suc.hyps(2) by simp
qed

text \<open>Whole numbers below \<open>2 ^ 53\<close> are added without rounding.\<close>

lemma binary64_add_whole:
  assumes "lo \<in> \<int>" "s \<in> \<int>" "0 < s" "- (2 ^ 53) < lo" "hi + s < 2 ^ 53"
    and "lo + real k * s \<le> hi"
  shows "js_add binary64 (lo + real k * s) s = lo + real (Suc k) * s"
proof -
  from assms(1,2) obtain i j where ij: "lo = real_of_int i" "s = real_of_int j"
    by (auto elim!: Ints_cases)
  define v where "v = i + int (Suc k) * j"
  have v: "lo + real (Suc k) * s = real_of_int v" unfolding v_def ij by simp
  have "real_of_int v \<le> hi + s" using assms(6) unfolding v[symmetric] by (simp add: algebra_simps)
  then have up: "real_of_int v < 2 ^ 53" using assms(5) by linarith
  have "0 \<le> real (Suc k) * s" using assms(3) by simp
  then have "- (2 ^ 53) < real_of_int v" using assms(4) unfolding v[symmetric] by linarith
  then have "\<bar>real_of_int v\<bar> < 2 ^ 53" using up by simp
  then have "\<bar>v\<bar> < 2 ^ 53"
    by (metis of_int_abs of_int_less_iff of_int_numeral of_int_power)
  then have "fl64 (real_of_int v) = real_of_int v" by (rule fl64_of_int)
  moreover have "lo + real k * s + s = real_of_int v"
    unfolding v[symmetric] by (simp add: algebra_simps)
  ultimately show ?thesis unfolding arith_binary64 v by simp
qed

text \<open>
  Two runs with \<open>minRate > maxRate\<close> on doubles. With amounts 3 to 3.6 by 0.2 the counter
  drifts as in the grid above and the call returns three rows without a cell, one fewer
  than \<open>\<lfloor>(maxAmount - minAmount) / stepAmount\<rfloor> + 1\<close>. With amounts \<open>2 ^ 53\<close> to \<open>2 ^ 54\<close> by 1
  the step is absorbed by the rounding of the first addition, the counter never moves and
  the call never returns.
\<close>

lemma grid_malformed_drift_example:
  "generateSensitivityGrid binary64
     \<lparr>minAmount = 3, maxAmount = fl64 (18 / 5), stepAmount = fl64 (1 / 5),
      minRate = 4, maxRate = 3, stepRate = fl64 (1 / 5)\<rparr> b f n oc = Some [[], [], []]"
proof -
  define config where "config = \<lparr>minAmount = 3, maxAmount = fl64 (18 / 5),
      stepAmount = fl64 (1 / 5), minRate = 4, maxRate = 3, stepRate = fl64 (1 / 5)\<rparr>"
  define a1 :: real where "a1 = 7205759403792794 / 2251799813685248"
  define a2 :: real where "a2 = 7656119366529844 / 2251799813685248"
  define a3 :: real where "a3 = 8106479329266894 / 2251799813685248"
  have sel: "minAmount config = 3" "maxAmount config = fl64 (18 / 5)"
    "stepAmount config = fl64 (1 / 5)" "minRate config = 4" "maxRate config = 3"
    by (simp_all add: config_def)
  have row: "rate_loop binary64 config b f n a' (minRate config) [] = Some []" for a'
    by (rule rate_loop_empty) (simp add: sel)
  have s1: "js_add binary64 3 (stepAmount config) = a1"
    unfolding sel fl64_one_fifth a1_def arith_binary64 by (rule ieee_rate_1)
  have s2: "js_add binary64 a1 (stepAmount config) = a2"
    unfolding sel fl64_one_fifth a1_def a2_def arith_binary64 by (rule ieee_rate_2)
  have s3: "js_add binary64 a2 (stepAmount config) = a3"
    unfolding sel fl64_one_fifth a2_def a3_def arith_binary64 by (rule ieee_rate_3)
  have c0: "3 \<le> maxAmount config" unfolding sel fl64_18_fifths by simp
  have c1: "a1 \<le> maxAmount config" unfolding sel fl64_18_fifths a1_def by simp
  have c2: "a2 \<le> maxAmount config" unfolding sel fl64_18_fifths a2_def by simp
  have c3: "\<not> a3 \<le> maxAmount config" unfolding sel fl64_18_fifths a3_def by simp
  have "amount_loop binary64 config b f n 3 [] = Some [[], [], []]"
    by (rule amount_loop_three[where A = binary64 and config = config and R = "\<lambda>_. []"
          and ?a0.0 = 3 and ?a1.0 = a1 and ?a2.0 = a2 and ?a3.0 = a3,
          OF row c0 s1 c1 s2 c2 s3 c3])
  then show ?thesis
    unfolding generateSensitivityGrid_def config_def[symmetric] sel .
qed

lemma fl64_absorbs_one: "fl64 (2 ^ 54 + 1) = 2 ^ 54"
  using fl64_eval[of 54 "2 ^ 54 + 1"]
  by (simp add: round_ties_even_def Let_def)

lemma grid_absorbed_step_example:
  "generateSensitivityGrid binary64
     \<lparr>minAmount = 2 ^ 53, maxAmount = 2 ^ 54, stepAmount = 1,
      minRate = 4, maxRate = 3, stepRate = 1\<rparr> b f n oc = None"
  unfolding generateSensitivityGrid_def
proof (rule amount_loop_diverges)
  fix x :: real
  assume "x \<le> maxAmount \<lparr>minAmount = 2 ^ 53, maxAmount = 2 ^ 54, stepAmount = 1,
      minRate = 4, maxRate = 3, stepRate = 1\<rparr>"
  then have "x + 1 \<le> 2 ^ 54 + 1" by simp
  then have "fl64 (x + 1) \<le> fl64 (2 ^ 54 + 1)" by (rule fl64_mono)
  then show "js_add binary64 x (stepAmount \<lparr>minAmount = 2 ^ 53, maxAmount = 2 ^ 54,
      stepAmount = 1, minRate = 4, maxRate = 3, stepRate = 1\<rparr>)
    \<le> maxAmount \<lparr>minAmount = 2 ^ 53, maxAmount = 2 ^ 54, stepAmount = 1,
      minRate = 4, maxRate = 3, stepRate = 1\<rparr>"
    unfolding fl64_absorbs_one by (simp add: arith_binary64)
next
  show "minAmount \<lparr>minAmount = 2 ^ 53, maxAmount = 2 ^ 54, stepAmount = 1,
      minRate = 4, maxRate = 3, stepRate = 1\<rparr>
    \<le> maxAmount \<lparr>minAmount = 2 ^ 53, maxAmount = 2 ^ 54, stepAmount = 1,
      minRate = 4, maxRate = 3, stepRate = 1\<rparr>"
    by simp
qed

text \<open>
  C4, as the code has it. \<open>generateSensitivityGrid\<close> validates nothing and raises nothing.
  On doubles, for a configuration whose bounds \<open>maxAmount\<close> and \<open>maxRate\<close> are doubles:
  with \<open>minAmount > maxAmount\<close> it returns the empty grid; otherwise with a step of the
  amounts that is not positive it never returns; otherwise with \<open>minRate > maxRate\<close>
  every grid it returns has at least one row and only rows without a cell (whether it
  returns, and with how many rows, depends on the rounding of the counter, as the two
  runs above show), and when the amounts are whole numbers below \<open>2 ^ 53\<close> it does return,
  with \<open>\<lfloor>(maxAmount - minAmount) / stepAmount\<rfloor> + 1\<close> such rows; otherwise, with a step of the
  rates that is not positive, it never returns.
\<close>

theorem sensitivity_grid_malformed:
  assumes "fl64 (maxAmount config) = maxAmount config" "fl64 (maxRate config) = maxRate config"
  shows "(maxAmount config < minAmount config \<longrightarrow>
      generateSensitivityGrid binary64 config b f n oc = Some [])
   \<and> (minAmount config \<le> maxAmount config \<and> stepAmount config \<le> 0 \<longrightarrow>
      generateSensitivityGrid binary64 config b f n oc = None)
   \<and> (minAmount config \<le> maxAmount config \<and> 0 < stepAmount config
        \<and> maxRate config < minRate config \<longrightarrow>
      (\<forall>grid. generateSensitivityGrid binary64 config b f n oc = Some grid \<longrightarrow>
          grid \<noteq> [] \<and> (\<forall>row \<in> set grid. row = []))
      \<and> (minAmount config \<in> \<int> \<and> stepAmount config \<in> \<int> \<and> - (2 ^ 53) < minAmount config
           \<and> maxAmount config + stepAmount config < 2 ^ 53 \<longrightarrow>
         generateSensitivityGrid binary64 config b f n oc
         = Some (replicate
                   (nat (\<lfloor>(maxAmount config - minAmount config) / stepAmount config\<rfloor> + 1)) [])))
   \<and> (minAmount config \<le> maxAmount config \<and> 0 < stepAmount config
        \<and> minRate config \<le> maxRate config \<and> stepRate config \<le> 0 \<longrightarrow>
      generateSensitivityGrid binary64 config b f n oc = None)"
proof -
  have c1: "generateSensitivityGrid binary64 config b f n oc = Some []"
    if "maxAmount config < minAmount config"
    unfolding generateSensitivityGrid_def using that by (subst amount_loop_unfold) simp
  have c2: "generateSensitivityGrid binary64 config b f n oc = None"
    if h: "minAmount config \<le> maxAmount config \<and> stepAmount config \<le> 0"
    unfolding generateSensitivityGrid_def
  proof (rule amount_loop_diverges)
    show "js_add binary64 x (stepAmount config) \<le> maxAmount config"
      if "x \<le> maxAmount config" for x
      using binary64_add_bounded[OF assms(1) _ that] h by simp
    show "minAmount config \<le> maxAmount config" using h by simp
  qed
  have c3: "grid \<noteq> [] \<and> (\<forall>row \<in> set grid. row = [])"
    if h: "minAmount config \<le> maxAmount config \<and> 0 < stepAmount config
        \<and> maxRate config < minRate config"
      and g: "generateSensitivityGrid binary64 config b f n oc = Some grid" for grid
  proof -
    from amount_loop_extends[OF g[unfolded generateSensitivityGrid_def]] h
    obtain rest where rest: "grid = rest" "rest \<noteq> []"
      "\<forall>row \<in> set rest. \<exists>a'. rate_loop binary64 config b f n a' (minRate config) [] = Some row"
      by auto
    have "row = []" if "row \<in> set rest" for row
    proof -
      from rest(3) that obtain a' where
        "rate_loop binary64 config b f n a' (minRate config) [] = Some row" by blast
      then show ?thesis using rate_loop_empty[of config "minRate config" binary64 b f n a' "[]"] h
        by simp
    qed
    then show ?thesis using rest by simp
  qed
  have c4: "generateSensitivityGrid binary64 config b f n oc
         = Some (replicate
                   (nat (\<lfloor>(maxAmount config - minAmount config) / stepAmount config\<rfloor> + 1)) [])"
    if h: "minAmount config \<le> maxAmount config \<and> 0 < stepAmount config
        \<and> maxRate config < minRate config"
      and w: "minAmount config \<in> \<int> \<and> stepAmount config \<in> \<int> \<and> - (2 ^ 53) < minAmount config
           \<and> maxAmount config + stepAmount config < 2 ^ 53"
  proof -
    have s: "0 < stepAmount config" using h by simp
    have R: "\<And>a'. rate_loop binary64 config b f n a' (minRate config) [] = Some []"
      using h by (simp add: rate_loop_empty)
    have nr: "\<forall>k < nsteps (minAmount config) (maxAmount config) (stepAmount config).
            js_add binary64 (minAmount config + real k * stepAmount config) (stepAmount config)
            = minAmount config + real (Suc k) * stepAmount config"
    proof (intro allI impI)
      fix k assume "k < nsteps (minAmount config) (maxAmount config) (stepAmount config)"
      then have "minAmount config + real k * stepAmount config \<le> maxAmount config"
        by (rule nsteps_less[OF s])
      then show "js_add binary64 (minAmount config + real k * stepAmount config) (stepAmount config)
            = minAmount config + real (Suc k) * stepAmount config"
        using w s by (intro binary64_add_whole) simp_all
    qed
    from amount_loop_unrounded[of config binary64 b f n "\<lambda>_. []", OF s R nr, of "[]"]
    show ?thesis
      unfolding generateSensitivityGrid_def nsteps_def by (simp add: map_replicate_const)
  qed
  have c5: "generateSensitivityGrid binary64 config b f n oc = None"
    if h: "minAmount config \<le> maxAmount config \<and> 0 < stepAmount config
        \<and> minRate config \<le> maxRate config \<and> stepRate config \<le> 0"
  proof -
    have "rate_loop binary64 config b f n (minAmount config) (minRate config) [] = None"
    proof (rule rate_loop_diverges)
      show "js_add binary64 x (stepRate config) \<le> maxRate config"
        if "x \<le> maxRate config" for x
        using binary64_add_bounded[OF assms(2) _ that] h by simp
      show "minRate config \<le> maxRate config" using h by simp
    qed
    then show ?thesis
      unfolding generateSensitivityGrid_def using h by (subst amount_loop_unfold) simp
  qed
  from c1 c2 c3 c4 c5 show ?thesis by blast
qed

theorem sensitivity_grid_malformed_witness:
  "generateSensitivityGrid binary64
     \<lparr>minAmount = 700000, maxAmount = 600000, stepAmount = 50000,
      minRate = 3, maxRate = 4, stepRate = 1 / 2\<rparr> 25 1000 10000 0 = Some []
   \<and> generateSensitivityGrid binary64
     \<lparr>minAmount = 600000, maxAmount = 700000, stepAmount = 0,
      minRate = 3, maxRate = 4, stepRate = 1 / 2\<rparr> 25 1000 10000 0 = None
   \<and> generateSensitivityGrid binary64
     \<lparr>minAmount = 600000, maxAmount = 700000, stepAmount = 50000,
      minRate = 4, maxRate = 3, stepRate = 1 / 2\<rparr> 25 1000 10000 0 = Some [[], [], []]
   \<and> generateSensitivityGrid binary64
     \<lparr>minAmount = 600000, maxAmount = 700000, stepAmount = 50000,
      minRate = 3, maxRate = 4, stepRate = - (1 / 2)\<rparr> 25 1000 10000 0 = None"
proof -
  have 1: "generateSensitivityGrid binary64
     \<lparr>minAmount = 700000, maxAmount = 600000, stepAmount = 50000,
      minRate = 3, maxRate = 4, stepRate = 1 / 2\<rparr> 25 1000 10000 0 = Some []"
    using sensitivity_grid_malformed[of "\<lparr>minAmount = 700000, maxAmount = 600000, stepAmount = 50000,
      minRate = 3, maxRate = 4, stepRate = 1 / 2\<rparr>" 25 1000 10000 0]
    by (simp add: fl64_numeral)
  have 2: "generateSensitivityGrid binary64
     \<lparr>minAmount = 600000, maxAmount = 700000, stepAmount = 0,
      minRate = 3, maxRate = 4, stepRate = 1 / 2\<rparr> 25 1000 10000 0 = None"
    using sensitivity_grid_malformed[of "\<lparr>minAmount = 600000, maxAmount = 700000, stepAmount = 0,
      minRate = 3, maxRate = 4, stepRate = 1 / 2\<rparr>" 25 1000 10000 0]
    by (simp add: fl64_numeral)
  have 3: "generateSensitivityGrid binary64
     \<lparr>minAmount = 600000, maxAmount = 700000, stepAmount = 50000,
      minRate = 4, maxRate = 3, stepRate = 1 / 2\<rparr> 25 1000 10000 0 = Some [[], [], []]"
    using sensitivity_grid_malformed[of "\<lparr>minAmount = 600000, maxAmount = 700000, stepAmount = 50000,
      minRate = 4, maxRate = 3, stepRate = 1 / 2\<rparr>" 25 1000 10000 0]
    by (simp add: fl64_numeral numeral_3_eq_3)
  have 4: "generateSensitivityGrid binary64
     \<lparr>minAmount = 600000, maxAmount = 700000, stepAmount = 50000,
      minRate = 3, maxRate = 4, stepRate = - (1 / 2)\<rparr> 25 1000 10000 0 = None"
    using sensitivity_grid_malformed[of "\<lparr>minAmount = 600000, maxAmount = 700000, stepAmount = 50000,
      minRate = 3, maxRate = 4, stepRate = - (1 / 2)\<rparr>" 25 1000 10000 0]
    by (simp add: fl64_numeral)
  from 1 2 3 4 show ?thesis by blast
qed

text \<open>
  C4 as stated fails: with the two amounts swapped the call returns normally, with an empty
  grid.
\<close>

theorem sensitivity_grid_malformed_counterexample:
  "generateSensitivityGrid binary64
     \<lparr>minAmount = 700000, maxAmount = 600000, stepAmount = 50000,
      minRate = 3, maxRate = 4, stepRate = 1 / 2\<rparr> 25 1000 10000 0 = Some []"
  unfolding generateSensitivityGrid_def by (subst amount_loop_unfold) simp

section \<open>Rounding at work in the annuity formula\<close>

text \<open>
  The roundings met when \<open>pmt\<close> and \<open>buildAmort\<close> are run on doubles at the inputs of the
  theorems below: each lemma rounds one exact intermediate result.
\<close>

lemma fl64_tiny_rate_1:
  "fl64 ((4503599627370497 / 4503599627370496) ^ 3)
   = 4503599627370499 / 4503599627370496"
  using fl64_eval[of 0 "(4503599627370497 / 4503599627370496) ^ 3"]
  by (simp add: power_divide powr_neg_numeral round_ties_even_def Let_def)

lemma fl64_tiny_rate_2:
  "fl64 ((2251799813685249 / 2251799813685248) ^ 3)
   = 2251799813685251 / 2251799813685248"
  using fl64_eval[of 0 "(2251799813685249 / 2251799813685248) ^ 3"]
  by (simp add: power_divide powr_neg_numeral round_ties_even_def Let_def)

lemma fl64_tiny_rate_3:
  "fl64 (5 / 18014398509481984)
   = 5 / 18014398509481984"
  using fl64_eval[of "- 52" "5 / 18014398509481984"]
  by (simp add: powr_neg_numeral round_ties_even_def Let_def)

lemma fl64_tiny_rate_4:
  "fl64 (18014398509481989 / 18014398509481984)
   = 4503599627370497 / 4503599627370496"
  using fl64_eval[of 0 "18014398509481989 / 18014398509481984"]
  by (simp add: powr_neg_numeral round_ties_even_def Let_def)

lemma fl64_tiny_rate_5:
  "fl64 (22517998136852495 / 81129638414606681695789005144064)
   = 1407374883553281 / 5070602400912917605986812821504"
  using fl64_eval[of "- 52" "22517998136852495 / 81129638414606681695789005144064"]
  by (simp add: powr_neg_numeral round_ties_even_def Let_def)

lemma fl64_tiny_rate_6:
  "fl64 (4222124650659843 / 633825300114114700748351602688)
   = 4222124650659843 / 633825300114114700748351602688"
  using fl64_eval[of "- 48" "4222124650659843 / 633825300114114700748351602688"]
  by (simp add: powr_neg_numeral round_ties_even_def Let_def)

lemma fl64_tiny_rate_7:
  "fl64 (3 / 4503599627370496)
   = 3 / 4503599627370496"
  using fl64_eval[of "- 51" "3 / 4503599627370496"]
  by (simp add: powr_neg_numeral round_ties_even_def Let_def)

lemma fl64_tiny_rate_8:
  "fl64 (1407374883553281 / 140737488355328)
   = 1407374883553281 / 140737488355328"
  using fl64_eval[of 3 "1407374883553281 / 140737488355328"]
  by (simp add: powr_neg_numeral round_ties_even_def Let_def)

lemma fl64_tiny_rate_9:
  "fl64 (15 / 2251799813685248)
   = 15 / 2251799813685248"
  using fl64_eval[of "- 48" "15 / 2251799813685248"]
  by (simp add: powr_neg_numeral round_ties_even_def Let_def)

lemma fl64_tiny_rate_10:
  "fl64 (22517998136852481 / 2251799813685248)
   = 10"
  using fl64_eval[of 3 "22517998136852481 / 2251799813685248"]
  by (simp add: powr_neg_numeral round_ties_even_def Let_def)

lemma fl64_tiny_rate_11:
  "fl64 (35184372088832025 / 35184372088832)
   = 4398046511104003 / 4398046511104"
  using fl64_eval[of 9 "35184372088832025 / 35184372088832"]
  by (simp add: powr_neg_numeral round_ties_even_def Let_def)

lemma fl64_tiny_rate_12:
  "fl64 (375 / 562949953421312)
   = 375 / 562949953421312"
  using fl64_eval[of "- 41" "375 / 562949953421312"]
  by (simp add: powr_neg_numeral round_ties_even_def Let_def)

lemma fl64_tiny_rate_13:
  "fl64 (35 / 9007199254740992)
   = 35 / 9007199254740992"
  using fl64_eval[of "- 48" "35 / 9007199254740992"]
  by (simp add: powr_neg_numeral round_ties_even_def Let_def)

lemma fl64_tiny_rate_14:
  "fl64 (90071992547409949 / 9007199254740992)
   = 2814749767106561 / 281474976710656"
  using fl64_eval[of 3 "90071992547409949 / 9007199254740992"]
  by (simp add: powr_neg_numeral round_ties_even_def Let_def)

lemma fl64_tiny_rate_15:
  "fl64 (1125899906842623 / 281474976710656)
   = 1125899906842623 / 281474976710656"
  using fl64_eval[of 1 "1125899906842623 / 281474976710656"]
  by (simp add: powr_neg_numeral round_ties_even_def Let_def)

lemma fl64_tiny_rate_16:
  "fl64 (875 / 2251799813685248)
   = 875 / 2251799813685248"
  using fl64_eval[of "- 42" "875 / 2251799813685248"]
  by (simp add: powr_neg_numeral round_ties_even_def Let_def)

lemma fl64_tiny_rate_17:
  "fl64 (70368744177664025 / 70368744177664)
   = 8796093022208003 / 8796093022208"
  using fl64_eval[of 9 "70368744177664025 / 70368744177664"]
  by (simp add: powr_neg_numeral round_ties_even_def Let_def)

lemma fl64_tiny_rate_18:
  "fl64 (28147497671065575 / 70368744177664)
   = 3518437208883197 / 8796093022208"
  using fl64_eval[of 8 "28147497671065575 / 70368744177664"]
  by (simp add: powr_neg_numeral round_ties_even_def Let_def)

lemma fl64_tiny_rate_19:
  "fl64 (5629499534213115 / 5070602400912917605986812821504)
   = 5629499534213115 / 5070602400912917605986812821504"
  using fl64_eval[of "- 50" "5629499534213115 / 5070602400912917605986812821504"]
  by (simp add: powr_neg_numeral round_ties_even_def Let_def)

lemma fl64_tiny_rate_20:
  "fl64 (50706024009129206459165612965893 / 5070602400912917605986812821504)
   = 5629499534213123 / 562949953421312"
  using fl64_eval[of 3 "50706024009129206459165612965893 / 5070602400912917605986812821504"]
  by (simp add: powr_neg_numeral round_ties_even_def Let_def)

lemma fl64_tiny_rate_21:
  "fl64 (140737488355327875 / 1267650600228229401496703205376)
   = 1099511627775999 / 9903520314283042199192993792"
  using fl64_eval[of "- 44" "140737488355327875 / 1267650600228229401496703205376"]
  by (simp add: powr_neg_numeral round_ties_even_def Let_def)

lemma fl64_tiny_rate_22:
  "fl64 (7 / 18014398509481984)
   = 7 / 18014398509481984"
  using fl64_eval[of "- 52" "7 / 18014398509481984"]
  by (simp add: powr_neg_numeral round_ties_even_def Let_def)

lemma fl64_tiny_rate_23:
  "fl64 (18014398509481991 / 18014398509481984)
   = 2251799813685249 / 2251799813685248"
  using fl64_eval[of 0 "18014398509481991 / 18014398509481984"]
  by (simp add: powr_neg_numeral round_ties_even_def Let_def)

lemma fl64_tiny_rate_24:
  "fl64 (15762598695796757 / 40564819207303340847894502572032)
   = 3940649673949189 / 10141204801825835211973625643008"
  using fl64_eval[of "- 52" "15762598695796757 / 40564819207303340847894502572032"]
  by (simp add: powr_neg_numeral round_ties_even_def Let_def)

lemma fl64_tiny_rate_25:
  "fl64 (11821949021847567 / 1267650600228229401496703205376)
   = 738871813865473 / 79228162514264337593543950336"
  using fl64_eval[of "- 47" "11821949021847567 / 1267650600228229401496703205376"]
  by (simp add: powr_neg_numeral round_ties_even_def Let_def)

lemma fl64_tiny_rate_26:
  "fl64 (3 / 2251799813685248)
   = 3 / 2251799813685248"
  using fl64_eval[of "- 50" "3 / 2251799813685248"]
  by (simp add: powr_neg_numeral round_ties_even_def Let_def)

lemma fl64_tiny_rate_27:
  "fl64 (738871813865473 / 105553116266496)
   = 7881299347898379 / 1125899906842624"
  using fl64_eval[of 2 "738871813865473 / 105553116266496"]
  by (simp add: powr_neg_numeral round_ties_even_def Let_def)

lemma fl64_adjacent_28:
  "fl64 (9005000231485441 / 536870912)
   = 9005000231485441 / 536870912"
  using fl64_eval[of 23 "9005000231485441 / 536870912"]
  by (simp add: powr_neg_numeral round_ties_even_def Let_def)

lemma fl64_adjacent_29:
  "fl64 (9005000231485441 / 2198486384640)
   = 4503599627370497 / 1099511627776"
  using fl64_eval[of 12 "9005000231485441 / 2198486384640"]
  by (simp add: powr_neg_numeral round_ties_even_def Let_def)

lemma fl64_adjacent_30:
  "fl64 (4502500115742721 / 268435456)
   = 4502500115742721 / 268435456"
  using fl64_eval[of 23 "4502500115742721 / 268435456"]
  by (simp add: powr_neg_numeral round_ties_even_def Let_def)

lemma fl64_adjacent_31:
  "fl64 (4502500115742721 / 1099243192320)
   = 4503599627370497 / 1099511627776"
  using fl64_eval[of 12 "4502500115742721 / 1099243192320"]
  by (simp add: powr_neg_numeral round_ties_even_def Let_def)

lemmas fl64_roundings =
  fl64_tiny_rate_1 fl64_tiny_rate_2 fl64_tiny_rate_3 fl64_tiny_rate_4
  fl64_tiny_rate_5 fl64_tiny_rate_6 fl64_tiny_rate_7 fl64_tiny_rate_8
  fl64_tiny_rate_9 fl64_tiny_rate_10 fl64_tiny_rate_11 fl64_tiny_rate_12
  fl64_tiny_rate_13 fl64_tiny_rate_14 fl64_tiny_rate_15 fl64_tiny_rate_16
  fl64_tiny_rate_17 fl64_tiny_rate_18 fl64_tiny_rate_19 fl64_tiny_rate_20
  fl64_tiny_rate_21 fl64_tiny_rate_22 fl64_tiny_rate_23 fl64_tiny_rate_24
  fl64_tiny_rate_25 fl64_tiny_rate_26 fl64_tiny_rate_27 fl64_adjacent_28
  fl64_adjacent_29 fl64_adjacent_30 fl64_adjacent_31

section \<open>A schedule whose repayments fall\<close>

lemma pmt_binary64_tiny_rate:
  "pmt binary64 (15 / 2 ^ 52) (1 / 4) 24 = 1407374883553281 / 140737488355328"
  by (simp add: pmt_def Let_def arith_binary64 fl64_numeral fl64_one fl64_roundings)

lemma amort_step_tiny_rate:
  "amort_step binary64 (1407374883553281 / 140737488355328) (5 / 18014398509481984) 24 = 14"
  "amort_step binary64 (1407374883553281 / 140737488355328) (5 / 18014398509481984) 14
   = 1125899906842623 / 281474976710656"
  "amort_step binary64 (1407374883553281 / 140737488355328) (5 / 18014398509481984)
     (1125899906842623 / 281474976710656) = 0"
  by (simp_all add: amort_step_def arith_binary64 fl64_numeral fl64_0 fl64_roundings)

lemma amort_row_tiny_rate:
  "amort_row binary64 (1407374883553281 / 140737488355328) (5 / 18014398509481984) j 24
   = \<lparr>month = j, payment = 10, interest = 0, principal = 10, balance = 14\<rparr>"
  "amort_row binary64 (1407374883553281 / 140737488355328) (5 / 18014398509481984) j 14
   = \<lparr>month = j, payment = 10, interest = 0, principal = 10, balance = 4\<rparr>"
  "amort_row binary64 (1407374883553281 / 140737488355328) (5 / 18014398509481984) j
     (1125899906842623 / 281474976710656)
   = \<lparr>month = j, payment = 10, interest = 0, principal = 4, balance = 0\<rparr>"
  unfolding amort_row_def amort_step_tiny_rate
  by (simp_all add: round2_def Math_round_def arith_binary64 fl64_numeral fl64_0 fl64_roundings)

text \<open>
  C8 fails on doubles, while the README of the repository has more of the payment go to
  the repayment as time goes on, and its tests expect the principal to grow over time. At
  the annual rate \<open>15 / 2 ^ 52\<close> the monthly rate is \<open>1.25 / 2 ^ 52\<close> and
  \<open>1 + r\<close> is rounded to \<open>1 + 1 / 2 ^ 52\<close>, so the growth factor over three months is
  \<open>1 + 3 / 2 ^ 52\<close> and the payment on a loan of 24 comes out near
  \<open>24 * 1.25 / 3 = 10\<close> instead of 8. The loan is repaid too fast, the clamp
  \<^verbatim>\<open>Math.min(pay - interest, bal)\<close> cuts the last repayment, and the principal fields of
  the three rows are 10, 10 and 4.
\<close>

theorem buildAmort_principal_falls:
  "buildAmort binary64 24 (15 / 2 ^ 52) (1 / 4)
   = [\<lparr>month = 1, payment = 10, interest = 0, principal = 10, balance = 14\<rparr>,
      \<lparr>month = 2, payment = 10, interest = 0, principal = 10, balance = 4\<rparr>,
      \<lparr>month = 3, payment = 10, interest = 0, principal = 4, balance = 0\<rparr>]
   \<and> map principal (buildAmort binary64 24 (15 / 2 ^ 52) (1 / 4)) = [10, 10, 4]
   \<and> \<not> sorted_wrt (\<le>) (map principal (buildAmort binary64 24 (15 / 2 ^ 52) (1 / 4)))"
proof -
  have m: "js_mul binary64 (1 / 4) 12 = 3" by (simp add: arith_binary64 fl64_numeral)
  have r: "js_div binary64 (15 / 2 ^ 52) 12 = 5 / 18014398509481984"
    by (simp add: arith_binary64 fl64_roundings)
  have months: "[1..<Suc (nat \<lfloor>3::real\<rfloor>)] = [1, 2, 3]"
    by (simp add: upt_conv_Cons)
  have rows: "buildAmort binary64 24 (15 / 2 ^ 52) (1 / 4)
   = [\<lparr>month = 1, payment = 10, interest = 0, principal = 10, balance = 14\<rparr>,
      \<lparr>month = 2, payment = 10, interest = 0, principal = 10, balance = 4\<rparr>,
      \<lparr>month = 3, payment = 10, interest = 0, principal = 4, balance = 0\<rparr>]"
    unfolding buildAmort_rows m r pmt_binary64_tiny_rate months
    by (simp add: numeral_2_eq_2 amort_step_tiny_rate amort_row_tiny_rate)
  show ?thesis unfolding rows by simp
qed

section \<open>Monotonicity of the payment\<close>




section \<open>The formulas in exact arithmetic\<close>

text \<open>
  Read in exact arithmetic the engine keeps what fails on doubles above: the schedule ends
  at a balance of 0, its columns are monotone, and the payment grows strictly with the
  principal and with the rate. The failures come from the rounding of the doubles, not
  from the formulas.
\<close>

lemma round2_exact_err: "\<bar>round2 exact_arith x - x\<bar> \<le> 1 / 200"
proof -
  define F where "F = \<lfloor>x * 100 + 1 / 2\<rfloor>"
  have "real_of_int F \<le> x * 100 + 1 / 2" "x * 100 + 1 / 2 < real_of_int F + 1"
    unfolding F_def by linarith+
  then have "\<bar>real_of_int F - x * 100\<bar> \<le> 1 / 2" by linarith
  then have bound: "\<bar>(real_of_int F - x * 100) / 100\<bar> \<le> 1 / 200" by simp
  have eq: "round2 exact_arith x - x = (real_of_int F - x * 100) / 100"
    unfolding round2_def arith_exact Math_round_def F_def by (simp add: diff_divide_distrib)
  show ?thesis unfolding eq by (rule bound)
qed

lemma round2_exact_split:
  assumes "x = y + z"
  shows "\<bar>round2 exact_arith x - (round2 exact_arith y + round2 exact_arith z)\<bar> \<le> 1 / 100"
proof -
  define A where "A = \<lfloor>x * 100 + 1 / 2\<rfloor>"
  define B where "B = \<lfloor>y * 100 + 1 / 2\<rfloor>"
  define C where "C = \<lfloor>z * 100 + 1 / 2\<rfloor>"
  have a: "real_of_int A \<le> x * 100 + 1 / 2" "x * 100 + 1 / 2 < real_of_int A + 1"
    unfolding A_def by linarith+
  have b: "real_of_int B \<le> y * 100 + 1 / 2" "y * 100 + 1 / 2 < real_of_int B + 1"
    unfolding B_def by linarith+
  have c: "real_of_int C \<le> z * 100 + 1 / 2" "z * 100 + 1 / 2 < real_of_int C + 1"
    unfolding C_def by linarith+
  have "real_of_int (A - (B + C)) < 2" "- 2 < real_of_int (A - (B + C))"
    using a b c assms by simp_all
  then have "A - (B + C) \<le> 1" "- 1 \<le> A - (B + C)" by linarith+
  then have "\<bar>real_of_int (A - (B + C))\<bar> \<le> 1" by linarith
  then have bound: "\<bar>real_of_int (A - (B + C)) / 100\<bar> \<le> 1 / 100" by simp
  have eq: "round2 exact_arith x - (round2 exact_arith y + round2 exact_arith z) = real_of_int (A - (B + C)) / 100"
    unfolding round2_def arith_exact Math_round_def A_def B_def C_def
    by (simp add: diff_divide_distrib add_divide_distrib)
  show ?thesis unfolding eq by (rule bound)
qed

lemma amort_bal_step:
  "amort_bal P r U k - (P * (r * U) / (U - 1) - amort_bal P r U k * r) = amort_bal P r U (Suc k)"
proof -
  have "amort_bal P r U k - (P * (r * U) / (U - 1) - amort_bal P r U k * r)
        = (P * (U - (1 + r) ^ k) - P * (r * U) + P * (U - (1 + r) ^ k) * r) / (U - 1)"
    unfolding amort_bal_def by (simp add: diff_divide_distrib add_divide_distrib)
  also have "P * (U - (1 + r) ^ k) - P * (r * U) + P * (U - (1 + r) ^ k) * r
        = P * (U - (1 + r) ^ Suc k)"
    by (simp add: algebra_simps)
  finally show ?thesis unfolding amort_bal_def .
qed

lemma amort_bal_nonneg:
  assumes "0 \<le> P" "1 < U" "(1 + r) ^ k \<le> U"
  shows "0 \<le> amort_bal P r U k"
  unfolding amort_bal_def using assms by simp

lemma pow_le_powr:
  assumes "0 < r" "real k \<le> m"
  shows "(1 + r) ^ k \<le> (1 + r) powr m"
proof -
  have "(1 + r) ^ k = (1 + r) powr real k" using assms by (simp add: powr_realpow)
  also have "\<dots> \<le> (1 + r) powr m" using assms by (intro powr_mono) auto
  finally show ?thesis .
qed

lemma U_gt_1: "0 < (r::real) \<Longrightarrow> 0 < m \<Longrightarrow> 1 < (1 + r) powr m"
  using powr_less_mono[of 0 m "1 + r"] by simp

lemma pmt_closed:
  assumes "0 < a" "0 \<le> P" "0 < y"
  shows "pmt exact_arith a y P = P * (a / 12 * (1 + a / 12) powr (y * 12)) / ((1 + a / 12) powr (y * 12) - 1)"
  using assms by (simp add: pmt_def Let_def arith_exact)

lemma amort_step_exact:
  assumes "0 \<le> P" "1 < U" "(1 + r) ^ Suc k \<le> U"
  shows "amort_step exact_arith (P * (r * U) / (U - 1)) r (amort_bal P r U k)
         = amort_bal P r U (Suc k)"
    and "min (P * (r * U) / (U - 1) - amort_bal P r U k * r) (amort_bal P r U k)
         = P * (r * U) / (U - 1) - amort_bal P r U k * r"
proof -
  have nn: "0 \<le> amort_bal P r U (Suc k)" using assms by (rule amort_bal_nonneg)
  have step: "amort_bal P r U k - (P * (r * U) / (U - 1) - amort_bal P r U k * r)
              = amort_bal P r U (Suc k)"
    by (rule amort_bal_step)
  show mn: "min (P * (r * U) / (U - 1) - amort_bal P r U k * r) (amort_bal P r U k)
         = P * (r * U) / (U - 1) - amort_bal P r U k * r"
    using nn step by simp
  show "amort_step exact_arith (P * (r * U) / (U - 1)) r (amort_bal P r U k)
         = amort_bal P r U (Suc k)"
    unfolding amort_step_def arith_exact mn step using nn by simp
qed

lemma amort_funpow_exact:
  assumes "0 < r" "0 \<le> P" "1 < U"
  shows "(1 + r) ^ k \<le> U \<Longrightarrow>
         (amort_step exact_arith (P * (r * U) / (U - 1)) r ^^ k) P = amort_bal P r U k"
proof (induction k)
  case 0
  show ?case using assms(3) by (simp add: amort_bal_def)
next
  case (Suc k)
  have "(1 + r) ^ k \<le> (1 + r) ^ Suc k" using assms(1) by (intro power_increasing) simp_all
  then have "(1 + r) ^ k \<le> U" using Suc.prems by linarith
  then have "(amort_step exact_arith (P * (r * U) / (U - 1)) r ^^ k) P = amort_bal P r U k"
    by (rule Suc.IH)
  then show ?case
    using amort_step_exact(1)[OF assms(2,3) Suc.prems] by simp
qed

lemma buildAmort_exact_closed:
  assumes "0 < a" "0 \<le> P" "0 < y"
  shows "buildAmort exact_arith P a y =
         map (exact_row P (a / 12) ((1 + a / 12) powr (y * 12))) [1..<Suc (nat \<lfloor>y * 12\<rfloor>)]"
proof -
  define r where "r = a / 12"
  define U where "U = (1 + r) powr (y * 12)"
  define pay where "pay = P * (r * U) / (U - 1)"
  have rpos: "0 < r" using assms by (simp add: r_def)
  have U1: "1 < U" unfolding U_def using rpos assms by (intro U_gt_1) simp_all
  have pay: "pmt exact_arith a y P = pay"
    using pmt_closed[OF assms] by (simp add: pay_def U_def r_def)
  have row: "amort_row exact_arith pay r j ((amort_step exact_arith pay r ^^ (j - 1)) P)
             = exact_row P r U j"
    if "j \<in> set [1..<Suc (nat \<lfloor>y * 12\<rfloor>)]" for j
  proof -
    from that have j: "0 < j" "j \<le> nat \<lfloor>y * 12\<rfloor>" by (simp_all del: upt_Suc)
    then have "real j \<le> y * 12" using real_le_iff_le_nat_floor[OF j(1)] by simp
    then have pj: "(1 + r) ^ j \<le> U" unfolding U_def using rpos by (intro pow_le_powr) simp_all
    have sj: "Suc (j - 1) = j" using j by simp
    have "(1 + r) ^ (j - 1) \<le> (1 + r) ^ j" using rpos by (intro power_increasing) simp_all
    then have pj1: "(1 + r) ^ (j - 1) \<le> U" using pj by linarith
    have b: "(amort_step exact_arith pay r ^^ (j - 1)) P = amort_bal P r U (j - 1)"
      unfolding pay_def by (rule amort_funpow_exact[OF rpos assms(2) U1 pj1])
    have pj': "(1 + r) ^ Suc (j - 1) \<le> U" using pj sj by simp
    have s: "amort_step exact_arith pay r (amort_bal P r U (j - 1)) = amort_bal P r U j"
      unfolding pay_def using amort_step_exact(1)[OF assms(2) U1 pj'] sj by simp
    have m: "min (pay - amort_bal P r U (j - 1) * r) (amort_bal P r U (j - 1))
             = pay - amort_bal P r U (j - 1) * r"
      unfolding pay_def by (rule amort_step_exact(2)[OF assms(2) U1 pj'])
    show ?thesis
      unfolding amort_row_def exact_row_def arith_exact b s m by (simp add: pay_def)
  qed
  have "buildAmort exact_arith P a y
        = map (\<lambda>j. amort_row exact_arith pay r j ((amort_step exact_arith pay r ^^ (j - 1)) P))
            [1..<Suc (nat \<lfloor>y * 12\<rfloor>)]"
    unfolding buildAmort_rows pay by (simp only: arith_exact r_def)
  also have "\<dots> = map (exact_row P r U) [1..<Suc (nat \<lfloor>y * 12\<rfloor>)]"
    by (rule map_cong[OF refl]) (rule row)
  finally show ?thesis unfolding r_def U_def .
qed

lemma sum_round2_exact_err:
  "\<bar>sum_list (map (\<lambda>i. round2 exact_arith (f i)) xs) - sum_list (map f xs)\<bar> \<le> real (length xs) / 200"
proof (induction xs)
  case Nil
  then show ?case by simp
next
  case (Cons x xs)
  have "\<bar>(round2 exact_arith (f x) + sum_list (map (\<lambda>i. round2 exact_arith (f i)) xs)) - (f x + sum_list (map f xs))\<bar>
        = \<bar>(round2 exact_arith (f x) - f x) + (sum_list (map (\<lambda>i. round2 exact_arith (f i)) xs) - sum_list (map f xs))\<bar>"
    by (simp add: algebra_simps)
  also have "\<dots> \<le> \<bar>round2 exact_arith (f x) - f x\<bar>
                  + \<bar>sum_list (map (\<lambda>i. round2 exact_arith (f i)) xs) - sum_list (map f xs)\<bar>"
    by (rule abs_triangle_ineq)
  also have "\<dots> \<le> 1 / 200 + real (length xs) / 200"
    by (intro add_mono round2_exact_err Cons.IH)
  finally show ?case by (simp add: add_divide_distrib)
qed

lemma amort_bal_telescope:
  "sum_list (map (\<lambda>i. amort_bal P r U (i - 1) - amort_bal P r U i) [1..<Suc M])
   = amort_bal P r U 0 - amort_bal P r U M"
  by (induction M) simp_all

lemma amort_bal_0: "1 < U \<Longrightarrow> amort_bal P r U 0 = P"
  by (simp add: amort_bal_def)

lemma amort_bal_end: "amort_bal P r ((1 + r) ^ M) M = 0"
  by (simp add: amort_bal_def)

lemma amort_principal_eq:
  "0 < i \<Longrightarrow> P * (r * U) / (U - 1) - amort_bal P r U (i - Suc 0) * r
             = amort_bal P r U (i - Suc 0) - amort_bal P r U i"
  using amort_bal_step[of P r U "i - Suc 0"] by simp

lemma amort_bal_antimono:
  assumes "0 < r" "0 \<le> P" "1 < U" "k \<le> l"
  shows "amort_bal P r U l \<le> amort_bal P r U k"
proof -
  have "(1 + r) ^ k \<le> (1 + r) ^ l" using assms by (intro power_increasing) simp_all
  then have "P * (U - (1 + r) ^ l) \<le> P * (U - (1 + r) ^ k)"
    using assms by (intro mult_left_mono) simp_all
  then show ?thesis unfolding amort_bal_def using assms by (intro divide_right_mono) simp_all
qed

lemma sorted_wrt_map_upt_antimono:
  fixes f :: "nat \<Rightarrow> real"
  assumes "\<And>i j. i \<le> j \<Longrightarrow> f j \<le> f i"
  shows "sorted_wrt (\<ge>) (map f [a..<b])"
proof -
  have "sorted_wrt (\<le>) [a..<b]" by simp
  then have "sorted_wrt (\<lambda>i j. f i \<ge> f j) [a..<b]"
    by (rule sorted_wrt_mono_rel[rotated]) (simp add: assms)
  then show ?thesis by (simp add: sorted_wrt_map)
qed

text \<open>
  For a loan \<open>P > 0\<close> at an annual rate \<open>a > 0\<close> over a term of \<open>y > 0\<close> years that counts a
  whole number \<open>M = y * 12\<close> of months, the schedule of exact arithmetic has \<open>M\<close> rows, the
  balance of the last row is 0, the \<open>principal\<close> fields add up to \<open>P\<close> within half a cent
  per row, and in every row \<open>payment\<close> differs from \<open>interest + principal\<close> by at most one
  cent.
\<close>

lemma buildAmort_exact_schedule:
  fixes M :: nat
  assumes "0 < P" "0 < a" "0 < y" "y * 12 = real M"
  shows "length (buildAmort exact_arith P a y) = M
       \<and> balance (last (buildAmort exact_arith P a y)) = 0
       \<and> \<bar>sum_list (map principal (buildAmort exact_arith P a y)) - P\<bar> \<le> real M / 200
       \<and> (\<forall>row \<in> set (buildAmort exact_arith P a y).
             \<bar>payment row - (interest row + principal row)\<bar> \<le> 1 / 100)"
proof -
  define r where "r = a / 12"
  define U where "U = (1 + r) powr (y * 12)"
  have rpos: "0 < r" using assms by (simp add: r_def)
  have "0 < real M" using assms(3,4) by (metis mult_pos_pos zero_less_numeral)
  then have Mpos: "0 < M" by simp
  have fl: "nat \<lfloor>y * 12\<rfloor> = M" unfolding assms(4) by simp
  have Upow: "U = (1 + r) ^ M"
    unfolding U_def assms(4) using rpos by (simp add: powr_realpow)
  have U1: "1 < U" unfolding U_def using rpos assms by (intro U_gt_1) simp_all
  have rows: "buildAmort exact_arith P a y = map (exact_row P r U) [1..<Suc M]"
    using buildAmort_exact_closed[of a P y] assms(1,2,3) fl by (simp add: r_def U_def)
  have len: "length (buildAmort exact_arith P a y) = M" by (simp add: rows)
  have "last (buildAmort exact_arith P a y) = exact_row P r U M"
    using Mpos by (simp add: rows)
  then have lst: "balance (last (buildAmort exact_arith P a y)) = 0"
    using amort_bal_end[of P r M] by (simp add: exact_row_def Upow round2_exact_zero)
  have "map principal (buildAmort exact_arith P a y)
        = map (\<lambda>i. round2 exact_arith (amort_bal P r U (i - 1) - amort_bal P r U i)) [1..<Suc M]"
    unfolding rows by (auto simp: exact_row_def amort_principal_eq)
  then have "\<bar>sum_list (map principal (buildAmort exact_arith P a y))
             - sum_list (map (\<lambda>i. amort_bal P r U (i - 1) - amort_bal P r U i) [1..<Suc M])\<bar>
             \<le> real (length [1..<Suc M]) / 200"
    using sum_round2_exact_err[of "\<lambda>i. amort_bal P r U (i - 1) - amort_bal P r U i" "[1..<Suc M]"]
    by (simp only:)
  moreover have "sum_list (map (\<lambda>i. amort_bal P r U (i - 1) - amort_bal P r U i) [1..<Suc M]) = P"
    using amort_bal_telescope[of P r U M] amort_bal_0[OF U1, of P r] amort_bal_end[of P r M]
    by (simp only: Upow diff_zero)
  moreover have "length [1..<Suc M] = M" by simp
  ultimately have sm: "\<bar>sum_list (map principal (buildAmort exact_arith P a y)) - P\<bar> \<le> real M / 200"
    by (simp only:)
  have rw: "\<forall>row \<in> set (buildAmort exact_arith P a y).
             \<bar>payment row - (interest row + principal row)\<bar> \<le> 1 / 100"
  proof
    fix row assume "row \<in> set (buildAmort exact_arith P a y)"
    then obtain i where row: "row = exact_row P r U i" unfolding rows by auto
    have "\<bar>round2 exact_arith x - (round2 exact_arith z + round2 exact_arith (x - z))\<bar> \<le> 1 / 100" for x z
      by (rule round2_exact_split) simp
    from this[of "P * (r * U) / (U - 1)" "amort_bal P r U (i - 1) * r"]
    show "\<bar>payment row - (interest row + principal row)\<bar> \<le> 1 / 100"
      unfolding row by (simp add: exact_row_def)
  qed
  from len lst sm rw show ?thesis by blast
qed

text \<open>
  With an annual rate above 0 and a principal that is not negative, the \<open>balance\<close> fields
  of the schedule of exact arithmetic never increase from one row to the next, the
  \<open>interest\<close> fields never increase, and the \<open>principal\<close> fields never decrease.
\<close>

lemma buildAmort_exact_monotone:
  assumes "0 < a" "0 \<le> P"
  shows "sorted_wrt (\<ge>) (map balance (buildAmort exact_arith P a y))
       \<and> sorted_wrt (\<ge>) (map interest (buildAmort exact_arith P a y))
       \<and> sorted_wrt (\<le>) (map principal (buildAmort exact_arith P a y))"
proof (cases "0 < y")
  case False
  then have "y * 12 < 1" by simp
  then have "length (buildAmort exact_arith P a y) = 0"
    by (simp add: buildAmort_length arith_exact)
  then have "buildAmort exact_arith P a y = []" by simp
  then show ?thesis by simp
next
  case True
  define r where "r = a / 12"
  define U where "U = (1 + r) powr (y * 12)"
  define pay where "pay = P * (r * U) / (U - 1)"
  have rpos: "0 < r" using assms by (simp add: r_def)
  have U1: "1 < U" unfolding U_def using rpos True by (intro U_gt_1) simp_all
  have rows: "buildAmort exact_arith P a y = map (exact_row P r U) [1..<Suc (nat \<lfloor>y * 12\<rfloor>)]"
    using buildAmort_exact_closed[OF assms True] by (simp add: r_def U_def)
  have anti: "amort_bal P r U l \<le> amort_bal P r U k" if "k \<le> l" for k l
    using amort_bal_antimono[OF rpos assms(2) U1 that] .
  have b: "map balance (buildAmort exact_arith P a y)
           = map (\<lambda>i. round2 exact_arith (amort_bal P r U i)) [1..<Suc (nat \<lfloor>y * 12\<rfloor>)]"
    unfolding rows by (simp add: exact_row_def)
  have i: "map interest (buildAmort exact_arith P a y)
           = map (\<lambda>i. round2 exact_arith (amort_bal P r U (i - 1) * r)) [1..<Suc (nat \<lfloor>y * 12\<rfloor>)]"
    unfolding rows by (simp add: exact_row_def)
  have p: "map principal (buildAmort exact_arith P a y)
           = map (\<lambda>i. round2 exact_arith (pay - amort_bal P r U (i - 1) * r)) [1..<Suc (nat \<lfloor>y * 12\<rfloor>)]"
    unfolding rows by (simp add: exact_row_def pay_def)
  have sb: "sorted_wrt (\<ge>) (map balance (buildAmort exact_arith P a y))"
    unfolding b by (intro sorted_wrt_map_upt_antimono round2_exact_mono anti)
  have si: "sorted_wrt (\<ge>) (map interest (buildAmort exact_arith P a y))"
    unfolding i using rpos
    by (intro sorted_wrt_map_upt_antimono round2_exact_mono mult_right_mono anti) simp_all
  have sp: "sorted_wrt (\<le>) (map principal (buildAmort exact_arith P a y))"
    unfolding p using rpos
    by (intro sorted_wrt_map_upt_mono round2_exact_mono diff_left_mono mult_right_mono anti) simp_all
  from sb si sp show ?thesis by blast
qed

lemma bernoulli_powr:
  fixes u m :: real
  assumes "1 < u" "0 < m"
  shows "1 + (m + 1) * (u - 1) < u powr (m + 1)"
proof -
  define k where "k = (\<lambda>x::real. x powr (m + 1) - (m + 1) * x)"
  have der: "(k has_real_derivative ((m + 1) * x powr m - (m + 1))) (at x)" if "0 < x" for x
    unfolding k_def using that by (auto intro!: derivative_eq_intros)
  have "k 1 < k u"
  proof (rule DERIV_pos_imp_increasing_open[OF assms(1)])
    fix x :: real assume x: "1 < x" "x < u"
    then have "1 < x powr m" using assms(2) powr_less_mono[of 0 m x] by simp
    then have "0 < (m + 1) * (x powr m - 1)" using assms(2) by simp
    then have "0 < (m + 1) * x powr m - (m + 1)" by (simp add: algebra_simps)
    then show "\<exists>y. (k has_real_derivative y) (at x) \<and> 0 < y" using der[of x] x by auto
  next
    show "continuous_on {1..u} k"
      by (rule DERIV_atLeastAtMost_imp_continuous_on) (use der in force)
  qed
  then show ?thesis by (simp add: k_def algebra_simps)
qed

lemma inv_annuity_deriv:
  fixes m :: real
  assumes "0 < x" "0 < m"
  shows "((\<lambda>r. (1 - (1 + r) powr (- m)) / r) has_real_derivative
          ((m * (1 + x) powr (- m - 1)) * x - (1 - (1 + x) powr (- m))) / (x * x)) (at x)"
  using assms
  by (auto intro!: derivative_eq_intros)

lemma inv_annuity_deriv_neg:
  fixes m :: real
  assumes "0 < x" "0 < m"
  shows "((m * (1 + x) powr (- m - 1)) * x - (1 - (1 + x) powr (- m))) / (x * x) < 0"
proof -
  define A where "A = (1 + x) powr m"
  have A0: "0 < A" using assms by (simp add: A_def)
  have b: "1 + (m + 1) * x < (1 + x) * A"
    using bernoulli_powr[of "1 + x" m] assms by (simp add: A_def powr_add mult.commute)
  have e1: "(1 + x) powr (- m) = 1 / A" by (simp add: A_def powr_minus divide_inverse)
  have e2: "(1 + x) powr (- m - 1) = 1 / (A * (1 + x))"
    using assms by (simp add: A_def powr_diff powr_minus divide_inverse)
  have "(m * (1 + x) powr (- m - 1)) * x - (1 - (1 + x) powr (- m))
        = (1 + (m + 1) * x - (1 + x) * A) / (A * (1 + x))"
  proof -
    have nz: "A \<noteq> 0" "1 + x \<noteq> 0" using A0 assms by simp_all
    show ?thesis unfolding e1 e2 using nz by (simp add: divide_simps) (simp add: algebra_simps)
  qed
  also have "\<dots> < 0" using b A0 assms by (simp add: divide_neg_pos)
  finally have "(m * (1 + x) powr (- m - 1)) * x - (1 - (1 + x) powr (- m)) < 0" .
  then show ?thesis using assms by (simp add: divide_neg_pos)
qed

lemma inv_annuity_decreasing:
  fixes m :: real
  assumes "0 < r1" "r1 < r2" "0 < m"
  shows "(1 - (1 + r2) powr (- m)) / r2 < (1 - (1 + r1) powr (- m)) / r1"
proof (rule DERIV_neg_imp_decreasing[OF assms(2)])
  fix x assume "r1 \<le> x" "x \<le> r2"
  then have "0 < x" using assms by simp
  then show "\<exists>y. ((\<lambda>r. (1 - (1 + r) powr (- m)) / r) has_real_derivative y) (at x) \<and> y < 0"
    using inv_annuity_deriv[OF _ assms(3)] inv_annuity_deriv_neg[OF _ assms(3)] by blast
qed

lemma annuity_factor_increasing:
  fixes m :: real
  assumes "0 < r1" "r1 < r2" "0 < m"
  shows "r1 * (1 + r1) powr m / ((1 + r1) powr m - 1) < r2 * (1 + r2) powr m / ((1 + r2) powr m - 1)"
proof -
  have inv: "r * (1 + r) powr m / ((1 + r) powr m - 1) = 1 / ((1 - (1 + r) powr (- m)) / r)"
    if "0 < r" for r
  proof -
    have "0 < (1 + r) powr m" using that by simp
    then show ?thesis using that by (simp add: powr_minus field_simps)
  qed
  have pos: "0 < (1 - (1 + r) powr (- m)) / r" if "0 < r" for r
  proof -
    have "(1 + r) powr (- m) < (1 + r) powr 0" using that assms(3) by (intro powr_less_mono) simp_all
    then show ?thesis using that by simp
  qed
  have r2: "0 < r2" using assms by simp
  define h1 where "h1 = (1 - (1 + r1) powr (- m)) / r1"
  define h2 where "h2 = (1 - (1 + r2) powr (- m)) / r2"
  have "h2 < h1" "0 < h1" "0 < h2"
    unfolding h1_def h2_def
    using inv_annuity_decreasing[OF assms] pos[OF assms(1)] pos[OF r2] by simp_all
  then have "1 / h1 < 1 / h2"
    by (intro divide_strict_left_mono) simp_all
  then show ?thesis
    unfolding inv[OF assms(1)] inv[OF r2] h1_def h2_def .
qed

text \<open>
  In exact arithmetic the payment grows strictly with the principal at a fixed positive
  rate and term, and strictly with the annual rate at a fixed positive principal and
  term.
\<close>

lemma pmt_exact_strictly_increasing:
  "(0 < a \<and> 0 < y \<and> 0 < P1 \<and> P1 < P2 \<longrightarrow> pmt exact_arith a y P1 < pmt exact_arith a y P2)
   \<and> (0 < P \<and> 0 < y \<and> 0 < a1 \<and> a1 < a2 \<longrightarrow> pmt exact_arith a1 y P < pmt exact_arith a2 y P)"
proof (intro conjI impI)
  assume h: "0 < a \<and> 0 < y \<and> 0 < P1 \<and> P1 < P2"
  define c where "c = a / 12 * (1 + a / 12) powr (y * 12) / ((1 + a / 12) powr (y * 12) - 1)"
  have "1 < (1 + a / 12) powr (y * 12)" using h by (intro U_gt_1) simp_all
  then have c: "0 < c" using h by (simp add: c_def)
  have "pmt exact_arith a y P1 = P1 * c" "pmt exact_arith a y P2 = P2 * c"
    using h by (simp_all add: pmt_closed c_def)
  then show "pmt exact_arith a y P1 < pmt exact_arith a y P2" using h c by simp
next
  assume h: "0 < P \<and> 0 < y \<and> 0 < a1 \<and> a1 < a2"
  have "a1 / 12 * (1 + a1 / 12) powr (y * 12) / ((1 + a1 / 12) powr (y * 12) - 1)
        < a2 / 12 * (1 + a2 / 12) powr (y * 12) / ((1 + a2 / 12) powr (y * 12) - 1)"
    using h by (intro annuity_factor_increasing) simp_all
  then have "P * (a1 / 12 * (1 + a1 / 12) powr (y * 12) / ((1 + a1 / 12) powr (y * 12) - 1))
        < P * (a2 / 12 * (1 + a2 / 12) powr (y * 12) / ((1 + a2 / 12) powr (y * 12) - 1))"
    using h by (intro mult_strict_left_mono) simp_all
  moreover have "pmt exact_arith a1 y P
        = P * (a1 / 12 * (1 + a1 / 12) powr (y * 12) / ((1 + a1 / 12) powr (y * 12) - 1))"
    using h pmt_closed[of a1 P y] by simp
  moreover have "pmt exact_arith a2 y P
        = P * (a2 / 12 * (1 + a2 / 12) powr (y * 12) / ((1 + a2 / 12) powr (y * 12) - 1))"
    using h pmt_closed[of a2 P y] by simp
  ultimately show "pmt exact_arith a1 y P < pmt exact_arith a2 y P" by (simp only:)
qed

end
